theory Spec2Isabelle
  imports Complex_Main "HOL-Library.Product_Lexorder" "HOL-Library.Monad_Syntax"
begin

section \<open>JavaScript values\<close>

text \<open>
  A \<^verbatim>\<open>Date\<close> is observed by the code only through \<^verbatim>\<open>getFullYear\<close>, \<^verbatim>\<open>getMonth\<close>
  (0 to 11), \<^verbatim>\<open>getDate\<close> and comparison of instants. It is modelled by its local calendar
  fields and the milliseconds since local midnight; instants compare lexicographically
  (a fixed UTC offset is assumed).
\<close>

record jsdate =
  getFullYear :: int
  getMonth :: int
  getDate :: int
  getTimeOfDay :: int

definition getTime :: "jsdate \<Rightarrow> int \<times> int \<times> int \<times> int" where
  "getTime d = (getFullYear d, getMonth d, getDate d, getTimeOfDay d)"

text \<open>
  Dynamically typed values: request bodies, query strings, validated values and the
  payloads of the collaborator services. Numbers are exact rationals; text is ASCII.
\<close>

datatype jsval =
    VUndefined
  | VNull
  | VBool bool
  | VNum rat
  | VStr string
  | VDate jsdate
  | VArr "jsval list"
  | VObj "(string \<times> jsval) list"

fun truthy :: "jsval \<Rightarrow> bool" where
  "truthy VUndefined = False"
| "truthy VNull = False"
| "truthy (VBool b) = b"
| "truthy (VNum n) = (n \<noteq> 0)"
| "truthy (VStr s) = (s \<noteq> [])"
| "truthy (VDate d) = True"
| "truthy (VArr xs) = True"
| "truthy (VObj kvs) = True"

text \<open>
  Property read \<^verbatim>\<open>v?.k\<close>. The plain read \<^verbatim>\<open>v.k\<close> agrees with it wherever \<^verbatim>\<open>v\<close> is
  neither \<^verbatim>\<open>null\<close> nor \<^verbatim>\<open>undefined\<close>; the callers below guard those two cases.
\<close>

fun js_prop :: "jsval \<Rightarrow> string \<Rightarrow> jsval" where
  "js_prop (VObj kvs) k = (case map_of kvs k of Some v \<Rightarrow> v | None \<Rightarrow> VUndefined)"
| "js_prop (VArr xs) k = (if k = ''length'' then VNum (of_nat (length xs)) else VUndefined)"
| "js_prop (VStr s) k = (if k = ''length'' then VNum (of_nat (length s)) else VUndefined)"
| "js_prop v k = VUndefined"

text \<open>\<^verbatim>\<open>a || b\<close> on values.\<close>

definition js_or :: "jsval \<Rightarrow> jsval \<Rightarrow> jsval" where
  "js_or a b = (if truthy a then a else b)"

text \<open>
  A template literal keeps its interpolated values: \<^verbatim>\<open>`Error: ${m}`\<close> is
  \<open>[Lit ''Error: '', Interp m]\<close>.
\<close>

datatype fragment = Lit string | Interp jsval

type_synonym message = "fragment list"

section \<open>services/externalServices.ts\<close>

datatype axios_response = AxiosResponse (response_status: int) (response_data: jsval)

datatype axios_error =
  AxiosError (error_code: "string option") (error_message: string)
    (error_response: "axios_response option")

text \<open>What awaiting an axios call gives: a response, an axios error, or any other throwable.\<close>

datatype axios_outcome = Fulfilled axios_response | RejectedAxios axios_error | RejectedOther

record compliance_customer_address =
  cca_country :: string
  cca_state :: string
  cca_city :: string

record compliance_customer_data =
  ccd_firstName :: string
  ccd_lastName :: string
  ccd_email :: string
  ccd_nationalId :: string
  ccd_dateOfBirth :: jsdate
  ccd_address :: compliance_customer_address

record ComplianceCheckRequest =
  ccr_customerId :: string
  ccr_customerData :: compliance_customer_data
  ccr_documents :: "(string \<times> string) list"

text \<open>The two collaborator services, as seen through axios.\<close>

record network =
  axios_get :: "string \<Rightarrow> axios_outcome"
  axios_post :: "string \<Rightarrow> ComplianceCheckRequest \<Rightarrow> axios_outcome"

record ExternalServicesClient =
  ms2BaseUrl :: string
  ms4BaseUrl :: string
  timeoutMs :: int

text \<open>\<^verbatim>\<open>error.response?.status\<close> and \<^verbatim>\<open>error.response?.data?.message\<close>.\<close>

definition error_status :: "axios_error \<Rightarrow> int option" where
  "error_status e = map_option response_status (error_response e)"

definition error_remote_message :: "axios_error \<Rightarrow> jsval" where
  "error_remote_message e =
     (case error_response e of None \<Rightarrow> VUndefined | Some r \<Rightarrow> js_prop (response_data r) ''message'')"

text \<open>
  \<^verbatim>\<open>getCustomerAccounts(customerId)\<close>: \<open>Inl m\<close> is \<^verbatim>\<open>throw new Error(m)\<close>, \<open>Inr v\<close> the
  value returned.
\<close>

definition getCustomerAccounts ::
  "network \<Rightarrow> ExternalServicesClient \<Rightarrow> string \<Rightarrow> message + jsval" where
  "getCustomerAccounts net client customerId =
     (case axios_get net (ms2BaseUrl client @ ''/api/accounts/customer/'' @ customerId) of
        Fulfilled response \<Rightarrow>
          if truthy (response_data response) \<and> truthy (js_prop (response_data response) ''success'')
          then Inr (js_or (js_prop (response_data response) ''data'') (VArr []))
          else Inr (VArr [])
      | RejectedAxios error \<Rightarrow>
          if error_code error = Some ''ECONNREFUSED''
          then Inl [Lit ''Account service is currently unavailable. Please try again later.'']
          else if error_status error = Some 404 then Inr (VArr [])
          else if error_status error = Some 500
          then Inl [Lit ''Account service error. Please try again later.'']
          else Inl [Lit ''Account service error: '',
                    Interp (js_or (error_remote_message error) (VStr (error_message error)))]
      | RejectedOther \<Rightarrow>
          Inl [Lit ''Failed to retrieve customer accounts. Please try again later.''])"

text \<open>
  \<^verbatim>\<open>triggerComplianceCheck(request)\<close>: \<open>Inr VNull\<close> is the \<^verbatim>\<open>null\<close> the method returns
  when it gives up, \<open>Inl m\<close> the error it throws.
\<close>

definition triggerComplianceCheck ::
  "network \<Rightarrow> ExternalServicesClient \<Rightarrow> ComplianceCheckRequest \<Rightarrow> message + jsval" where
  "triggerComplianceCheck net client request =
     (case axios_post net (ms4BaseUrl client @ ''/api/compliance/check'') request of
        Fulfilled response \<Rightarrow>
          if truthy (response_data response) \<and> truthy (js_prop (response_data response) ''success'')
          then Inr (js_prop (response_data response) ''data'')
          else Inr VNull
      | RejectedAxios error \<Rightarrow>
          if error_code error = Some ''ECONNREFUSED'' then Inr VNull
          else if error_status error = Some 400
          then Inl [Lit ''Compliance validation error: '',
                    Interp (js_or (error_remote_message error) (VStr ''Invalid data''))]
          else if (case error_response error of None \<Rightarrow> False
                   | Some r \<Rightarrow> response_status r \<ge> 500)
          then Inr VNull
          else Inr VNull
      | RejectedOther \<Rightarrow> Inr VNull)"

section \<open>Regular expressions\<close>

text \<open>
  The patterns of the source are anchored at both ends and use only character classes,
  sequence, alternative and repetition, so \<^verbatim>\<open>test\<close> is membership in a regular
  language, decided here with derivatives. \<^verbatim>\<open>\d\<close>, \<^verbatim>\<open>\w\<close> and \<^verbatim>\<open>\s\<close> are their ASCII
  classes.
\<close>

datatype rexp = Zero | One | Cls "char list" | Alt rexp rexp | Seq rexp rexp | Star rexp

fun nullable :: "rexp \<Rightarrow> bool" where
  "nullable Zero = False"
| "nullable One = True"
| "nullable (Cls cs) = False"
| "nullable (Alt a b) = (nullable a \<or> nullable b)"
| "nullable (Seq a b) = (nullable a \<and> nullable b)"
| "nullable (Star a) = True"

definition rseq :: "rexp \<Rightarrow> rexp \<Rightarrow> rexp" where
  "rseq a b = (if a = One then b else Seq a b)"

text \<open>
  The partial derivatives of an expression by one character: the expressions whose
  languages together are what may follow that character.
\<close>

fun pderiv :: "char \<Rightarrow> rexp \<Rightarrow> rexp list" where
  "pderiv c Zero = []"
| "pderiv c One = []"
| "pderiv c (Cls cs) = (if c \<in> set cs then [One] else [])"
| "pderiv c (Alt a b) = pderiv c a @ pderiv c b"
| "pderiv c (Seq a b) =
     map (\<lambda>a'. rseq a' b) (pderiv c a) @ (if nullable a then pderiv c b else [])"
| "pderiv c (Star a) = map (\<lambda>a'. rseq a' (Star a)) (pderiv c a)"

definition regex_step :: "rexp list \<Rightarrow> char \<Rightarrow> rexp list" where
  "regex_step rs c = remdups (concat (map (pderiv c) rs))"

definition regex_test :: "rexp \<Rightarrow> string \<Rightarrow> bool" where
  "regex_test r s = list_ex nullable (foldl regex_step [r] s)"

definition Opt :: "rexp \<Rightarrow> rexp" where
  "Opt r = Alt One r"

definition Plus :: "rexp \<Rightarrow> rexp" where
  "Plus r = Seq r (Star r)"

fun rep :: "nat \<Rightarrow> rexp \<Rightarrow> rexp" where
  "rep 0 r = One"
| "rep (Suc n) r = Seq r (rep n r)"

text \<open>\<^verbatim>\<open>r{n,m}\<close>\<close>

definition rep_between :: "nat \<Rightarrow> nat \<Rightarrow> rexp \<Rightarrow> rexp" where
  "rep_between n m r = Seq (rep n r) (rep (m - n) (Opt r))"

fun seqs :: "rexp list \<Rightarrow> rexp" where
  "seqs [] = One"
| "seqs [r] = r"
| "seqs (r # rs) = Seq r (seqs rs)"

definition digit_chars :: "char list" where
  "digit_chars = ''0123456789''"

definition word_chars :: "char list" where
  "word_chars =
     ''abcdefghijklmnopqrstuvwxyz'' @ ''ABCDEFGHIJKLMNOPQRSTUVWXYZ'' @ digit_chars @ ''_''"

definition space_chars :: "char list" where
  "space_chars = [CHR 0x20, CHR 0x09, CHR 0x0A, CHR 0x0B, CHR 0x0C, CHR 0x0D]"

definition hex_chars :: "char list" where
  "hex_chars = digit_chars @ ''abcdef'' @ ''ABCDEF''"

text \<open>\<^verbatim>\<open>/^\+?[\d\s\-\(\)]{10,15}$/\<close>, shared by the validator and the model.\<close>

definition phone_pattern :: rexp where
  "phone_pattern =
     Seq (Opt (Cls ''+'')) (rep_between 10 15 (Cls (digit_chars @ space_chars @ ''-()'')))"

text \<open>\<^verbatim>\<open>/^\w+([.-]?\w+)*@\w+([.-]?\w+)*(\.\w{2,3})+$/\<close> of models/Customer.ts.\<close>

definition model_email_pattern :: rexp where
  "model_email_pattern =
     seqs [Plus (Cls word_chars),
           Star (Seq (Opt (Cls ''.-'')) (Plus (Cls word_chars))),
           Cls ''@'',
           Plus (Cls word_chars),
           Star (Seq (Opt (Cls ''.-'')) (Plus (Cls word_chars))),
           Plus (Seq (Cls ''.'') (rep_between 2 3 (Cls word_chars)))]"

text \<open>\<^verbatim>\<open>/^[0-9a-fA-F]{24}$/\<close>\<close>

definition object_id_pattern :: rexp where
  "object_id_pattern = rep 24 (Cls hex_chars)"

text \<open>\<^verbatim>\<open>String.prototype.trim\<close> and \<^verbatim>\<open>toLowerCase\<close> on ASCII text.\<close>

definition js_trim :: "string \<Rightarrow> string" where
  "js_trim s =
     rev (dropWhile (\<lambda>c. c \<in> set space_chars) (rev (dropWhile (\<lambda>c. c \<in> set space_chars) s)))"

definition lower_char :: "char \<Rightarrow> char" where
  "lower_char c =
     (if (65::nat) \<le> of_char c \<and> of_char c \<le> (90::nat) then char_of (of_char c + (32::nat))
      else c)"

definition toLowerCase :: "string \<Rightarrow> string" where
  "toLowerCase s = map lower_char s"

section \<open>middleware/errorHandler.ts\<close>

text \<open>\<^verbatim>\<open>`${statusCode}`.startsWith('4')\<close>: the first decimal digit of a positive code.\<close>

fun lead_digit :: "nat \<Rightarrow> nat" where
  "lead_digit n = (if n < 10 then n else lead_digit (n div 10))"

declare lead_digit.simps [simp del]

record AppError =
  err_message :: message
  statusCode :: int
  err_status :: string
  isOperational :: bool

definition newAppError :: "message \<Rightarrow> int \<Rightarrow> AppError" where
  "newAppError m code =
     \<lparr>err_message = m, statusCode = code,
      err_status = (if 0 < code \<and> lead_digit (nat code) = 4 then ''fail'' else ''error''),
      isOperational = True\<rparr>"

text \<open>What a handler hands to \<^verbatim>\<open>next\<close>, or throws inside \<^verbatim>\<open>catchAsync\<close>.\<close>

datatype thrown =
    App AppError
  | ValidationError "(string \<times> string) list"
  | PreSaveError message
  | DuplicateKey string string
  | MongoError message
  | TypeError

text \<open>The result of \<^verbatim>\<open>Math.ceil(totalCount / limit)\<close> on integers.\<close>

datatype jsnumber = Finite rat | PosInfinity | NegInfinity | NaN

definition js_divide :: "int \<Rightarrow> int \<Rightarrow> jsnumber" where
  "js_divide a b =
     (if b \<noteq> 0 then Finite (of_int a / of_int b)
      else if 0 < a then PosInfinity else if a < 0 then NegInfinity else NaN)"

fun js_ceil :: "jsnumber \<Rightarrow> jsnumber" where
  "js_ceil (Finite q) = Finite (of_int \<lceil>q\<rceil>)"
| "js_ceil n = n"

text \<open>\<^verbatim>\<open>page < totalPages\<close>\<close>

fun js_less :: "int \<Rightarrow> jsnumber \<Rightarrow> bool" where
  "js_less p (Finite q) = (of_int p < q)"
| "js_less p PosInfinity = True"
| "js_less p NegInfinity = False"
| "js_less p NaN = False"

record pagination =
  currentPage :: int
  totalPages :: jsnumber
  totalItems :: int
  itemsPerPage :: int
  hasNextPage :: bool
  hasPreviousPage :: bool

record field_error =
  field :: string
  error_type :: string
  custom_message :: "string option"
  offending :: jsval

text \<open>
  The JSON written to the response: \<^verbatim>\<open>{success: true, message, data, timestamp}\<close>, the
  same with \<^verbatim>\<open>pagination\<close>, or \<^verbatim>\<open>{success: false, message, errors}\<close> of the validators.
\<close>

datatype body =
    SuccessBody message jsval jsdate
  | PaginatedBody message "jsval list" pagination jsdate
  | FailureBody string "field_error list"

datatype reply = Reply (reply_status: int) (reply_body: body)

datatype outcome = Sent reply | Next thrown

definition sendSuccess :: "jsdate \<Rightarrow> jsval \<Rightarrow> message \<Rightarrow> int \<Rightarrow> reply" where
  "sendSuccess now data m code = Reply code (SuccessBody m data now)"

definition sendPaginatedResponse ::
  "jsdate \<Rightarrow> jsval list \<Rightarrow> int \<Rightarrow> int \<Rightarrow> int \<Rightarrow> message \<Rightarrow> reply" where
  "sendPaginatedResponse now data totalCount page limit m =
     (let totalPages = js_ceil (js_divide totalCount limit)
      in Reply 200 (PaginatedBody m data
           \<lparr>currentPage = page, totalPages = totalPages, totalItems = totalCount,
            itemsPerPage = limit, hasNextPage = js_less page totalPages,
            hasPreviousPage = (1 < page)\<rparr> now))"

section \<open>models/Customer.ts\<close>

record KYCDocument =
  doc_type :: string
  filename :: string
  uploadDate :: jsdate
  verified :: bool
  verifiedBy :: "string option"
  verifiedAt :: "jsdate option"

record Address =
  street :: string
  city :: string
  state :: string
  postalCode :: string
  country :: string

record NotificationPreferences =
  np_email :: bool
  np_sms :: bool
  np_push :: bool

record CustomerPreferences =
  language :: string
  currency :: string
  notificationPreferences :: NotificationPreferences
  marketingConsent :: bool

text \<open>
  A stored document. \<open>oid\<close> is \<^verbatim>\<open>_id\<close>, \<open>versionKey\<close> is \<^verbatim>\<open>__v\<close>; enumerated strings are
  kept as the strings the store holds.
\<close>

record ICustomer =
  oid :: string
  firstName :: string
  lastName :: string
  email :: string
  phone :: string
  dateOfBirth :: jsdate
  nationalId :: string
  passportNumber :: "string option"
  address :: Address
  documents :: "KYCDocument list"
  emailVerified :: bool
  phoneVerified :: bool
  identityVerified :: bool
  preferences :: CustomerPreferences
  registrationDate :: jsdate
  lastLoginDate :: "jsdate option"
  status :: string
  complianceStatus :: string
  complianceNotes :: "string option"
  complianceCheckedAt :: "jsdate option"
  createdAt :: jsdate
  updatedAt :: jsdate
  versionKey :: int

text \<open>
  The body that \<^verbatim>\<open>createCustomerSchema\<close> lets through, by type: what \<^verbatim>\<open>new Customer\<close>
  is given. Preferences may be partial; the model schema fills them.
\<close>

record NotificationInput =
  ni_email :: "bool option"
  ni_sms :: "bool option"
  ni_push :: "bool option"

record PreferencesInput =
  pi_language :: "string option"
  pi_currency :: "string option"
  pi_notificationPreferences :: "NotificationInput option"
  pi_marketingConsent :: "bool option"

record CustomerData =
  cd_firstName :: string
  cd_lastName :: string
  cd_email :: string
  cd_phone :: string
  cd_dateOfBirth :: jsdate
  cd_nationalId :: string
  cd_passportNumber :: "string option"
  cd_address :: Address
  cd_documents :: "KYCDocument list"
  cd_preferences :: PreferencesInput

definition default_bool :: "bool \<Rightarrow> bool option \<Rightarrow> bool" where
  "default_bool d v = (case v of None \<Rightarrow> d | Some b \<Rightarrow> b)"

definition default_string :: "string \<Rightarrow> string option \<Rightarrow> string" where
  "default_string d v = (case v of None \<Rightarrow> d | Some s \<Rightarrow> s)"

definition new_NotificationPreferences :: "NotificationInput option \<Rightarrow> NotificationPreferences" where
  "new_NotificationPreferences v =
     (case v of
        None \<Rightarrow> \<lparr>np_email = True, np_sms = True, np_push = True\<rparr>
      | Some n \<Rightarrow>
          \<lparr>np_email = default_bool True (ni_email n), np_sms = default_bool True (ni_sms n),
           np_push = default_bool True (ni_push n)\<rparr>)"

definition new_CustomerPreferences :: "PreferencesInput \<Rightarrow> CustomerPreferences" where
  "new_CustomerPreferences p =
     \<lparr>language = default_string ''es'' (pi_language p),
      currency = default_string ''COP'' (pi_currency p),
      notificationPreferences = new_NotificationPreferences (pi_notificationPreferences p),
      marketingConsent = default_bool False (pi_marketingConsent p)\<rparr>"

definition new_Address :: "Address \<Rightarrow> Address" where
  "new_Address a =
     \<lparr>street = js_trim (street a), city = js_trim (city a), state = js_trim (state a),
      postalCode = js_trim (postalCode a), country = js_trim (country a)\<rparr>"

text \<open>
  \<^verbatim>\<open>new Customer(customerData)\<close>: the setters (\<^verbatim>\<open>trim\<close>, \<^verbatim>\<open>lowercase\<close>) and the defaults of
  \<^verbatim>\<open>customerSchema\<close>, with the timestamps \<^verbatim>\<open>save\<close> stamps on a new document.
\<close>

definition new_Customer :: "string \<Rightarrow> jsdate \<Rightarrow> CustomerData \<Rightarrow> ICustomer" where
  "new_Customer newId now d =
     \<lparr>oid = newId,
      firstName = js_trim (cd_firstName d),
      lastName = js_trim (cd_lastName d),
      email = js_trim (toLowerCase (cd_email d)),
      phone = js_trim (cd_phone d),
      dateOfBirth = cd_dateOfBirth d,
      nationalId = js_trim (cd_nationalId d),
      passportNumber = map_option js_trim (cd_passportNumber d),
      address = new_Address (cd_address d),
      documents = cd_documents d,
      emailVerified = False,
      phoneVerified = False,
      identityVerified = False,
      preferences = new_CustomerPreferences (cd_preferences d),
      registrationDate = now,
      lastLoginDate = None,
      status = ''pending_verification'',
      complianceStatus = ''pending'',
      complianceNotes = None,
      complianceCheckedAt = None,
      createdAt = now,
      updatedAt = now,
      versionKey = 0\<rparr>"

text \<open>
  The validators of one path run in order and the first that fails is the path's error:
  \<^verbatim>\<open>required\<close> (a non-empty string), then the declared ones.
\<close>

definition check_required :: "string \<Rightarrow> string \<Rightarrow> (string \<times> string) list" where
  "check_required path s = (if s = [] then [(path, ''required'')] else [])"

definition check_length :: "string \<Rightarrow> nat \<Rightarrow> nat \<Rightarrow> string \<Rightarrow> (string \<times> string) list" where
  "check_length path lo hi s =
     (if length s < lo then [(path, ''minlength'')]
      else if hi < length s then [(path, ''maxlength'')] else [])"

definition check_match :: "string \<Rightarrow> rexp \<Rightarrow> string \<Rightarrow> (string \<times> string) list" where
  "check_match path r s = (if regex_test r s then [] else [(path, ''regexp'')])"

definition check_enum :: "string \<Rightarrow> string list \<Rightarrow> string \<Rightarrow> (string \<times> string) list" where
  "check_enum path vs s = (if s \<in> set vs then [] else [(path, ''enum'')])"

definition first_error :: "(string \<times> string) list list \<Rightarrow> (string \<times> string) list" where
  "first_error checks = (case concat checks of [] \<Rightarrow> [] | e # es \<Rightarrow> [e])"

text \<open>
  The \<^verbatim>\<open>dateOfBirth\<close> validator of the model: the difference of the years alone.
\<close>

definition model_age_valid :: "jsdate \<Rightarrow> jsdate \<Rightarrow> bool" where
  "model_age_valid today v =
     (let age = getFullYear today - getFullYear v in 18 \<le> age \<and> age \<le> 120)"

definition validate_Address :: "Address \<Rightarrow> (string \<times> string) list" where
  "validate_Address a =
     check_required ''address.street'' (street a) @ check_required ''address.city'' (city a) @
     check_required ''address.state'' (state a) @
     check_required ''address.postalCode'' (postalCode a) @
     check_required ''address.country'' (country a)"

definition validate_KYCDocument :: "KYCDocument \<Rightarrow> (string \<times> string) list" where
  "validate_KYCDocument d =
     first_error [check_required ''documents.type'' (doc_type d),
        check_enum ''documents.type''
          [''national_id'', ''passport'', ''driving_license'', ''address_proof'',
           ''income_proof'', ''other''] (doc_type d)] @
     check_required ''documents.filename'' (filename d)"

definition validateSync :: "jsdate \<Rightarrow> ICustomer \<Rightarrow> (string \<times> string) list" where
  "validateSync today c =
     first_error [check_required ''firstName'' (firstName c),
                  check_length ''firstName'' 2 50 (firstName c)] @
     first_error [check_required ''lastName'' (lastName c),
                  check_length ''lastName'' 2 50 (lastName c)] @
     first_error [check_required ''email'' (email c),
                  check_match ''email'' model_email_pattern (email c)] @
     first_error [check_required ''phone'' (phone c),
                  check_match ''phone'' phone_pattern (phone c)] @
     (if model_age_valid today (dateOfBirth c) then [] else [(''dateOfBirth'', ''user defined'')]) @
     first_error [check_required ''nationalId'' (nationalId c),
                  check_length ''nationalId'' 8 20 (nationalId c)] @
     (case passportNumber c of None \<Rightarrow> []
      | Some p \<Rightarrow> check_length ''passportNumber'' 6 15 p) @
     validate_Address (address c) @
     concat (map validate_KYCDocument (documents c)) @
     check_enum ''preferences.language'' [''es'', ''en''] (language (preferences c)) @
     check_enum ''preferences.currency'' [''COP'', ''USD'', ''EUR''] (currency (preferences c)) @
     check_enum ''status'' [''active'', ''inactive'', ''suspended'', ''pending_verification'']
       (status c) @
     check_enum ''complianceStatus'' [''pending'', ''approved'', ''rejected'', ''under_review'']
       (complianceStatus c)"

text \<open>
  \<^verbatim>\<open>save()\<close> of a new document: validation, the \<^verbatim>\<open>pre('save')\<close> hook, then the insert
  under the unique indexes on \<^verbatim>\<open>email\<close> and \<^verbatim>\<open>nationalId\<close>. The collection is the list of
  its documents in the order a query without a sort returns them.
\<close>

definition save :: "jsdate \<Rightarrow> ICustomer list \<Rightarrow> ICustomer \<Rightarrow> thrown + ICustomer list" where
  "save today store c =
     (if validateSync today c \<noteq> [] then Inl (ValidationError (validateSync today c))
      else if nationalId c = [] \<and> (case passportNumber c of None \<Rightarrow> True | Some p \<Rightarrow> p = [])
      then Inl (PreSaveError [Lit ''At least one identity document is required''])
      else if list_ex (\<lambda>x. email x = email c) store then Inl (DuplicateKey ''email'' (email c))
      else if list_ex (\<lambda>x. nationalId x = nationalId c) store
      then Inl (DuplicateKey ''nationalId'' (nationalId c))
      else Inr (store @ [c]))"

definition opt_field :: "string \<Rightarrow> ('a \<Rightarrow> jsval) \<Rightarrow> 'a option \<Rightarrow> (string \<times> jsval) list" where
  "opt_field k f v = (case v of None \<Rightarrow> [] | Some x \<Rightarrow> [(k, f x)])"

definition Address_toObject :: "Address \<Rightarrow> jsval" where
  "Address_toObject a =
     VObj [(''street'', VStr (street a)), (''city'', VStr (city a)), (''state'', VStr (state a)),
           (''postalCode'', VStr (postalCode a)), (''country'', VStr (country a))]"

definition KYCDocument_toObject :: "KYCDocument \<Rightarrow> jsval" where
  "KYCDocument_toObject d =
     VObj ([(''type'', VStr (doc_type d)), (''filename'', VStr (filename d)),
            (''uploadDate'', VDate (uploadDate d)), (''verified'', VBool (verified d))] @
           opt_field ''verifiedBy'' VStr (verifiedBy d) @
           opt_field ''verifiedAt'' VDate (verifiedAt d))"

definition CustomerPreferences_toObject :: "CustomerPreferences \<Rightarrow> jsval" where
  "CustomerPreferences_toObject p =
     VObj [(''language'', VStr (language p)), (''currency'', VStr (currency p)),
           (''notificationPreferences'',
              VObj [(''email'', VBool (np_email (notificationPreferences p))),
                    (''sms'', VBool (np_sms (notificationPreferences p))),
                    (''push'', VBool (np_push (notificationPreferences p)))]),
           (''marketingConsent'', VBool (marketingConsent p))]"

text \<open>\<^verbatim>\<open>toObject()\<close>; the ids mongoose gives to subdocuments are left out.\<close>

definition toObject :: "ICustomer \<Rightarrow> jsval" where
  "toObject c =
     VObj ([(''_id'', VStr (oid c)),
            (''firstName'', VStr (firstName c)),
            (''lastName'', VStr (lastName c)),
            (''email'', VStr (email c)),
            (''phone'', VStr (phone c)),
            (''dateOfBirth'', VDate (dateOfBirth c)),
            (''nationalId'', VStr (nationalId c))] @
           opt_field ''passportNumber'' VStr (passportNumber c) @
           [(''address'', Address_toObject (address c)),
            (''documents'', VArr (map KYCDocument_toObject (documents c))),
            (''emailVerified'', VBool (emailVerified c)),
            (''phoneVerified'', VBool (phoneVerified c)),
            (''identityVerified'', VBool (identityVerified c)),
            (''preferences'', CustomerPreferences_toObject (preferences c)),
            (''registrationDate'', VDate (registrationDate c))] @
           opt_field ''lastLoginDate'' VDate (lastLoginDate c) @
           [(''status'', VStr (status c)),
            (''complianceStatus'', VStr (complianceStatus c))] @
           opt_field ''complianceNotes'' VStr (complianceNotes c) @
           opt_field ''complianceCheckedAt'' VDate (complianceCheckedAt c) @
           [(''createdAt'', VDate (createdAt c)),
            (''updatedAt'', VDate (updatedAt c)),
            (''__v'', VNum (of_int (versionKey c)))])"

section \<open>controllers/CustomerController.ts\<close>

definition findById :: "ICustomer list \<Rightarrow> string \<Rightarrow> ICustomer option" where
  "findById store i = find (\<lambda>c. oid c = i) store"

text \<open>\<^verbatim>\<open>findOneAndUpdate\<close>: the first document that matches is replaced by its update.\<close>

fun update_first :: "('a \<Rightarrow> bool) \<Rightarrow> ('a \<Rightarrow> 'a) \<Rightarrow> 'a list \<Rightarrow> 'a list" where
  "update_first P f [] = []"
| "update_first P f (x # xs) = (if P x then f x # xs else x # update_first P f xs)"

definition complianceRequest :: "ICustomer \<Rightarrow> ComplianceCheckRequest" where
  "complianceRequest customer =
     \<lparr>ccr_customerId = oid customer,
      ccr_customerData =
        \<lparr>ccd_firstName = firstName customer, ccd_lastName = lastName customer,
         ccd_email = email customer, ccd_nationalId = nationalId customer,
         ccd_dateOfBirth = dateOfBirth customer,
         ccd_address =
           \<lparr>cca_country = country (address customer), cca_state = state (address customer),
            cca_city = city (address customer)\<rparr>\<rparr>,
      ccr_documents = map (\<lambda>d. (doc_type d, filename d)) (documents customer)\<rparr>"

text \<open>
  What the callback scheduled by \<^verbatim>\<open>triggerComplianceCheckAsync\<close> does once the gateway has
  answered: it writes the result to the record, warns, or logs the error it caught.
\<close>

datatype background_action =
    UpdateCompliance string jsval jsval jsval
  | WarnRetryLater string
  | LogError string message

definition complianceCallback ::
  "network \<Rightarrow> ExternalServicesClient \<Rightarrow> ICustomer \<Rightarrow> background_action" where
  "complianceCallback net client customer =
     (case triggerComplianceCheck net client (complianceRequest customer) of
        Inl m \<Rightarrow> LogError (oid customer) m
      | Inr complianceResult \<Rightarrow>
          if truthy complianceResult
          then UpdateCompliance (oid customer) (js_prop complianceResult ''status'')
                 (js_prop complianceResult ''notes'') (js_prop complianceResult ''checkedAt'')
          else WarnRetryLater (oid customer))"

text \<open>
  \<^verbatim>\<open>createCustomer\<close>: the collection afterwards, what the handler answers, and the
  compliance request it schedules.
\<close>

definition persistCustomer ::
  "jsdate \<Rightarrow> string \<Rightarrow> ICustomer list \<Rightarrow> CustomerData \<Rightarrow>
     ICustomer list \<times> outcome \<times> ComplianceCheckRequest option" where
  "persistCustomer now newId store customerData =
     (let newCustomer = new_Customer newId now customerData
      in case save now store newCustomer of
           Inl err \<Rightarrow> (store, Next err, None)
         | Inr store' \<Rightarrow>
             (store',
              Sent (sendSuccess now (toObject newCustomer)
                      [Lit ''Customer created successfully''] 201),
              Some (complianceRequest newCustomer)))"

definition createCustomer ::
  "jsdate \<Rightarrow> string \<Rightarrow> ICustomer list \<Rightarrow> CustomerData \<Rightarrow>
     ICustomer list \<times> outcome \<times> ComplianceCheckRequest option" where
  "createCustomer now newId store customerData =
     (case find (\<lambda>c. email c = cd_email customerData \<or> nationalId c = cd_nationalId customerData)
             store of
        Some existingCustomer \<Rightarrow>
          if email existingCustomer = cd_email customerData
          then (store, Next (App (newAppError [Lit ''Email address is already registered''] 409)),
                None)
          else if nationalId existingCustomer = cd_nationalId customerData
          then (store, Next (App (newAppError [Lit ''National ID is already registered''] 409)),
                None)
          else persistCustomer now newId store customerData
      | None \<Rightarrow> persistCustomer now newId store customerData)"

text \<open>\<^verbatim>\<open>CustomerController.getCustomerAccounts\<close>\<close>

definition getAccounts ::
  "jsdate \<Rightarrow> network \<Rightarrow> ExternalServicesClient \<Rightarrow> ICustomer list \<Rightarrow> string \<Rightarrow> outcome" where
  "getAccounts now net client store i =
     (case findById store i of
        None \<Rightarrow> Next (App (newAppError [Lit ''Customer not found''] 404))
      | Some customer \<Rightarrow>
          (case getCustomerAccounts net client i of
             Inr accounts \<Rightarrow>
               Sent (sendSuccess now
                 (VObj [(''customer'',
                           VObj [(''id'', VStr (oid customer)),
                                 (''firstName'', VStr (firstName customer)),
                                 (''lastName'', VStr (lastName customer)),
                                 (''email'', VStr (email customer))]),
                        (''accounts'', accounts)])
                 [Lit ''Retrieved '', Interp (js_prop accounts ''length''),
                  Lit '' accounts for customer''] 200)
           | Inl m \<Rightarrow> Next (App (newAppError m 503))))"

text \<open>
  The validated query of \<^verbatim>\<open>searchCustomers\<close>, by type. \<open>regex\<close> is the store's
  case-insensitive \<^verbatim>\<open>$regex\<close> match of a pattern against a field.
\<close>

record ValidatedQuery =
  q :: "string option"
  q_status :: "string option"
  q_complianceStatus :: "string option"
  q_country :: "string option"
  page :: int
  limit :: int

text \<open>\<^verbatim>\<open>if (x) { filter... }\<close>: a condition joins the filter only for a non-empty value.\<close>

definition when_given :: "string option \<Rightarrow> (string \<Rightarrow> bool) \<Rightarrow> bool" where
  "when_given v P = (case v of None \<Rightarrow> True | Some s \<Rightarrow> if s = [] then True else P s)"

definition search_filter ::
  "(string \<Rightarrow> string \<Rightarrow> bool) \<Rightarrow> ValidatedQuery \<Rightarrow> ICustomer \<Rightarrow> bool" where
  "search_filter regex vq c =
     (when_given (q vq)
        (\<lambda>s. regex s (firstName c) \<or> regex s (lastName c) \<or> regex s (email c) \<or>
             regex s (nationalId c)) \<and>
      when_given (q_status vq) (\<lambda>s. status c = s) \<and>
      when_given (q_complianceStatus vq) (\<lambda>s. complianceStatus c = s) \<and>
      when_given (q_country vq) (\<lambda>s. regex s (country (address c))))"

text \<open>\<^verbatim>\<open>.sort({ createdAt: -1 })\<close>; the store leaves the order of equal keys open.\<close>

definition sort_createdAt_desc :: "ICustomer list \<Rightarrow> ICustomer list" where
  "sort_createdAt_desc cs = rev (sort_key (\<lambda>c. getTime (createdAt c)) cs)"

text \<open>\<^verbatim>\<open>.limit(n)\<close>: zero is no limit, a negative limit is its absolute value.\<close>

definition cursor_limit :: "int \<Rightarrow> 'a list \<Rightarrow> 'a list" where
  "cursor_limit n xs = (if n = 0 then xs else take (nat \<bar>n\<bar>) xs)"

text \<open>\<^verbatim>\<open>.select('-documents -__v')\<close>\<close>

definition select_without :: "string list \<Rightarrow> jsval \<Rightarrow> jsval" where
  "select_without ks v =
     (case v of VObj kvs \<Rightarrow> VObj (filter (\<lambda>(k, x). k \<notin> set ks) kvs) | _ \<Rightarrow> v)"

definition searchCustomers ::
  "jsdate \<Rightarrow> (string \<Rightarrow> string \<Rightarrow> bool) \<Rightarrow> ICustomer list \<Rightarrow> ValidatedQuery \<Rightarrow> outcome" where
  "searchCustomers now regex store vq =
     (let matching = filter (search_filter regex vq) store;
          totalCount = int (length matching);
          skip = (page vq - 1) * limit vq
      in if skip < 0 then Next (MongoError [Lit ''Skip value must be non-negative''])
         else (let customers = cursor_limit (limit vq) (drop (nat skip) (sort_createdAt_desc matching));
                   safeCustomers = map (\<lambda>c. select_without [''documents'', ''__v''] (toObject c)) customers
               in Sent (sendPaginatedResponse now safeCustomers totalCount (page vq) (limit vq)
                    [Lit ''Retrieved '', Interp (VNum (of_nat (length customers))),
                     Lit '' customers''])))"

text \<open>\<^verbatim>\<open>deleteCustomer\<close>: the collection afterwards and the answer.\<close>

definition deleteCustomer ::
  "jsdate \<Rightarrow> ICustomer list \<Rightarrow> string \<Rightarrow> ICustomer list \<times> outcome" where
  "deleteCustomer now store i =
     (case findById store i of
        None \<Rightarrow> (store, Next (App (newAppError [Lit ''Customer not found''] 404)))
      | Some customer \<Rightarrow>
          (update_first (\<lambda>c. oid c = i) (\<lambda>c. c\<lparr>status := ''inactive'', updatedAt := now\<rparr>) store,
           Sent (sendSuccess now VNull [Lit ''Customer deactivated successfully''] 200)))"

section \<open>The validation library\<close>

text \<open>
  The schemas of validators/customerValidator.ts are values of the validation library
  (Joi). A schema has a type, a presence flag, a default, a list of values allowed as they
  are (and whether only those are), rules in the order they were added, and custom
  messages by error code; an object type carries the schemas of its keys and an array type
  the schema of its items. \<open>validate\<close> below follows the library's pipeline under the
  options the middlewares pass, \<^verbatim>\<open>abortEarly: false\<close> and \<^verbatim>\<open>convert: true\<close>, with
  \<^verbatim>\<open>stripUnknown\<close> as a parameter.

  What the library takes from the runtime is a parameter: the instant of validation, the
  conversion of a string or number to a \<^verbatim>\<open>Date\<close>, and the address check behind the
  \<^verbatim>\<open>email\<close> rule.
\<close>

record joi_env =
  env_now :: jsdate
  env_toDate :: "jsval \<Rightarrow> jsdate option"
  env_isEmail :: "string \<Rightarrow> bool"

datatype rule =
    Trim
  | Lowercase
  | Min int
  | Max int
  | Email
  | Pattern rexp
  | Integer
  | MaxNow
  | Custom "jsdate \<Rightarrow> jsval \<Rightarrow> string + jsval"

datatype presence = Optional | Required | Forbidden

datatype dflt = NoDefault | Default jsval | DefaultNow

datatype kind =
    KAny
  | KString
  | KNumber
  | KBoolean
  | KDate
  | KArray schema
  | KObject "(string \<times> schema) list"
and schema =
  Schema (schema_kind: kind) (schema_presence: presence) (schema_default: dflt)
    (schema_valids: "jsval list") (schema_only: bool) (schema_rules: "rule list")
    (schema_messages: "(string \<times> string) list")

text \<open>The builders, so that a schema reads as its method chain does.\<close>

definition Joi :: "kind \<Rightarrow> schema" where
  "Joi k = Schema k Optional NoDefault [] False [] []"

definition chain :: "schema \<Rightarrow> (schema \<Rightarrow> schema) list \<Rightarrow> schema" where
  "chain s fs = foldl (\<lambda>s f. f s) s fs"

fun add_rule :: "rule \<Rightarrow> schema \<Rightarrow> schema" where
  "add_rule r (Schema k p d vs only rs ms) = Schema k p d vs only (rs @ [r]) ms"

fun required :: "schema \<Rightarrow> schema" where
  "required (Schema k p d vs only rs ms) = Schema k Required d vs only rs ms"

fun optional :: "schema \<Rightarrow> schema" where
  "optional (Schema k p d vs only rs ms) = Schema k Optional d vs only rs ms"

fun forbidden :: "schema \<Rightarrow> schema" where
  "forbidden (Schema k p d vs only rs ms) = Schema k Forbidden d vs only rs ms"

fun default_to :: "dflt \<Rightarrow> schema \<Rightarrow> schema" where
  "default_to d' (Schema k p d vs only rs ms) = Schema k p d' vs only rs ms"

fun valid :: "jsval list \<Rightarrow> schema \<Rightarrow> schema" where
  "valid vs' (Schema k p d vs only rs ms) = Schema k p d (vs @ vs') True rs ms"

fun allow :: "jsval list \<Rightarrow> schema \<Rightarrow> schema" where
  "allow vs' (Schema k p d vs only rs ms) = Schema k p d (vs @ vs') only rs ms"

fun messages :: "(string \<times> string) list \<Rightarrow> schema \<Rightarrow> schema" where
  "messages ms' (Schema k p d vs only rs ms) = Schema k p d vs only rs (ms' @ ms)"

text \<open>\<^verbatim>\<open>detail.path.join('.')\<close>; an array index is written in decimal.\<close>

fun show_nat :: "nat \<Rightarrow> string" where
  "show_nat n =
     (if n < 10 then [char_of (48 + n)] else show_nat (n div 10) @ [char_of (48 + n mod 10)])"

declare show_nat.simps [simp del]

fun join_path :: "string list \<Rightarrow> string" where
  "join_path [] = []"
| "join_path [p] = p"
| "join_path (p # ps) = p @ ''.'' @ join_path ps"

definition joi_error ::
  "(string \<times> string) list \<Rightarrow> string list \<Rightarrow> string \<Rightarrow> jsval \<Rightarrow> field_error" where
  "joi_error ms path code v =
     \<lparr>field = join_path path, error_type = code, custom_message = map_of ms code,
      offending = v\<rparr>"

text \<open>
  The conversion of a string to a number: the library's pattern
  \<^verbatim>\<open>/^\s*[+-]?(?:(?:\d+(?:\.\d*)?)|(?:\.\d+))(?:e([+-]?\d+))?\s*$/i\<close>, then the decimal value
  of the trimmed text, kept exact.
\<close>

definition number_pattern :: rexp where
  "number_pattern =
     seqs [Star (Cls space_chars),
           Opt (Cls ''+-''),
           Alt (Seq (Plus (Cls digit_chars)) (Opt (Seq (Cls ''.'') (Star (Cls digit_chars)))))
               (Seq (Cls ''.'') (Plus (Cls digit_chars))),
           Opt (seqs [Cls ''eE'', Opt (Cls ''+-''), Plus (Cls digit_chars)]),
           Star (Cls space_chars)]"

definition digits_value :: "string \<Rightarrow> nat" where
  "digits_value ds = foldl (\<lambda>n c. 10 * n + (of_char c - 48)) 0 ds"

definition signed_value :: "string \<Rightarrow> int" where
  "signed_value s =
     (case s of
        [] \<Rightarrow> 0
      | c # r \<Rightarrow>
          if c = CHR ''-'' then - int (digits_value r)
          else if c = CHR ''+'' then int (digits_value r)
          else int (digits_value s))"

definition pow10 :: "int \<Rightarrow> rat" where
  "pow10 k = (if 0 \<le> k then 10 ^ nat k else 1 / 10 ^ nat (- k))"

definition decimal_value :: "string \<Rightarrow> rat" where
  "decimal_value s =
     (let t = js_trim s;
          negative = (t \<noteq> [] \<and> hd t = CHR ''-'');
          u = (if t \<noteq> [] \<and> hd t \<in> set ''+-'' then tl t else t);
          mantissa = takeWhile (\<lambda>c. c \<notin> set ''eE'') u;
          exponent = signed_value (drop 1 (dropWhile (\<lambda>c. c \<notin> set ''eE'') u));
          whole = takeWhile (\<lambda>c. c \<noteq> CHR ''.'') mantissa;
          fraction = drop 1 (dropWhile (\<lambda>c. c \<noteq> CHR ''.'') mantissa);
          magnitude = of_nat (digits_value (whole @ fraction)) *
                      pow10 (exponent - int (length fraction))
      in if negative then - magnitude else magnitude)"

definition number_coerce :: "string \<Rightarrow> rat option" where
  "number_coerce s = (if regex_test number_pattern s then Some (decimal_value s) else None)"

definition max_safe_integer :: rat where
  "max_safe_integer = 9007199254740991"

text \<open>The conversions of \<^verbatim>\<open>convert: true\<close>, by type, before anything is checked.\<close>

fun is_trim :: "rule \<Rightarrow> bool" where
  "is_trim Trim = True"
| "is_trim r = False"

fun is_lowercase :: "rule \<Rightarrow> bool" where
  "is_lowercase Lowercase = True"
| "is_lowercase r = False"

fun coerce :: "joi_env \<Rightarrow> kind \<Rightarrow> rule list \<Rightarrow> jsval \<Rightarrow> jsval" where
  "coerce env KString rs (VStr s) =
     VStr ((if list_ex is_trim rs then js_trim else id)
             ((if list_ex is_lowercase rs then toLowerCase else id) s))"
| "coerce env KNumber rs (VStr s) =
     (case number_coerce s of Some n \<Rightarrow> VNum n | None \<Rightarrow> VStr s)"
| "coerce env KBoolean rs (VStr s) =
     (if toLowerCase s = ''true'' then VBool True
      else if toLowerCase s = ''false'' then VBool False else VStr s)"
| "coerce env KDate rs (VStr s) =
     (case env_toDate env (VStr s) of Some d \<Rightarrow> VDate d | None \<Rightarrow> VStr s)"
| "coerce env KDate rs (VNum n) =
     (case env_toDate env (VNum n) of Some d \<Rightarrow> VDate d | None \<Rightarrow> VNum n)"
| "coerce env k rs v = v"

text \<open>One rule on a value that has passed the check of its type: an error code, or the value.\<close>

fun apply_rule :: "joi_env \<Rightarrow> rule \<Rightarrow> jsval \<Rightarrow> string + jsval" where
  "apply_rule env (Min n) (VStr s) = (if int (length s) < n then Inl ''string.min'' else Inr (VStr s))"
| "apply_rule env (Max n) (VStr s) = (if n < int (length s) then Inl ''string.max'' else Inr (VStr s))"
| "apply_rule env Email (VStr s) = (if env_isEmail env s then Inr (VStr s) else Inl ''string.email'')"
| "apply_rule env (Pattern r) (VStr s) =
     (if regex_test r s then Inr (VStr s) else Inl ''string.pattern.base'')"
| "apply_rule env (Min n) (VNum x) = (if x < of_int n then Inl ''number.min'' else Inr (VNum x))"
| "apply_rule env (Max n) (VNum x) = (if of_int n < x then Inl ''number.max'' else Inr (VNum x))"
| "apply_rule env Integer (VNum x) =
     (if of_int \<lfloor>x\<rfloor> = x then Inr (VNum x) else Inl ''number.integer'')"
| "apply_rule env MaxNow (VDate d) =
     (if getTime d \<le> getTime (env_now env) then Inr (VDate d) else Inl ''date.max'')"
| "apply_rule env (Min n) (VObj kvs) =
     (if int (length kvs) < n then Inl ''object.min'' else Inr (VObj kvs))"
| "apply_rule env (Max n) (VObj kvs) =
     (if n < int (length kvs) then Inl ''object.max'' else Inr (VObj kvs))"
| "apply_rule env (Custom f) v = f (env_now env) v"
| "apply_rule env r v = Inr v"

text \<open>
  The rules run in order; a failing rule adds its error and the next rule sees the value
  unchanged.
\<close>

fun run_rules ::
  "joi_env \<Rightarrow> (string \<times> string) list \<Rightarrow> string list \<Rightarrow> rule list \<Rightarrow> jsval \<Rightarrow>
     field_error list \<times> jsval" where
  "run_rules env ms path [] v = ([], v)"
| "run_rules env ms path (r # rs) v =
     (case apply_rule env r v of
        Inl code \<Rightarrow>
          (case run_rules env ms path rs v of (es, v') \<Rightarrow> (joi_error ms path code v # es, v'))
      | Inr v' \<Rightarrow> run_rules env ms path rs v')"

definition default_value :: "joi_env \<Rightarrow> dflt \<Rightarrow> jsval" where
  "default_value env d =
     (case d of NoDefault \<Rightarrow> VUndefined | Default v \<Rightarrow> v | DefaultNow \<Rightarrow> VDate (env_now env))"

text \<open>The check of the type itself, for the types without parts.\<close>

fun base_error :: "kind \<Rightarrow> jsval \<Rightarrow> string option" where
  "base_error KAny v = None"
| "base_error KString (VStr s) = (if s = [] then Some ''string.empty'' else None)"
| "base_error KString v = Some ''string.base''"
| "base_error KNumber (VNum x) =
     (if max_safe_integer < x \<or> x < - max_safe_integer then Some ''number.unsafe'' else None)"
| "base_error KNumber v = Some ''number.base''"
| "base_error KBoolean (VBool b) = None"
| "base_error KBoolean v = Some ''boolean.base''"
| "base_error KDate (VDate d) = None"
| "base_error KDate v = Some ''date.base''"
| "base_error (KArray s) (VArr xs) = None"
| "base_error (KArray s) v = Some ''array.base''"
| "base_error (KObject ks) (VObj kvs) = None"
| "base_error (KObject ks) v = Some ''object.base''"

text \<open>
  What validation gives for a value that is absent, and how the parts of an object or an
  array are put together. An object keeps its declared keys whose value is defined; keys
  that no schema declares are dropped under \<^verbatim>\<open>stripUnknown\<close> and are errors otherwise. The
  keys of an object are taken to be distinct.
\<close>

definition absent_result ::
  "joi_env \<Rightarrow> (string \<times> string) list \<Rightarrow> string list \<Rightarrow> presence \<Rightarrow> dflt \<Rightarrow>
     field_error list \<times> jsval" where
  "absent_result env ms path p d =
     (case p of
        Forbidden \<Rightarrow> ([], VUndefined)
      | Required \<Rightarrow> ([joi_error ms path ''any.required'' VUndefined], VUndefined)
      | Optional \<Rightarrow> ([], default_value env d))"

definition collect_object ::
  "bool \<Rightarrow> (string \<times> string) list \<Rightarrow> string list \<Rightarrow> string list \<Rightarrow> (string \<times> jsval) list \<Rightarrow>
     (string \<times> field_error list \<times> jsval) list \<Rightarrow> field_error list \<times> jsval" where
  "collect_object strip ms path declared kvs results =
     (let unknown = filter (\<lambda>(key, x). key \<notin> set declared) kvs
      in (concat (map (\<lambda>(key, es, r). es) results) @
          (if strip then []
           else map (\<lambda>(key, x). joi_error ms (path @ [key]) ''object.unknown'' x) unknown),
          VObj (concat (map (\<lambda>(key, es, r). if r = VUndefined then [] else [(key, r)]) results) @
                (if strip then [] else unknown))))"

definition collect_array ::
  "(string \<times> string) list \<Rightarrow> string list \<Rightarrow> (nat \<times> jsval \<times> field_error list \<times> jsval) list \<Rightarrow>
     field_error list \<times> jsval" where
  "collect_array ms path results =
     (concat (map (\<lambda>(i, x, es, r).
                if x = VUndefined then [joi_error ms (path @ [show_nat i]) ''array.sparse'' x]
                else es) results),
      VArr (map (\<lambda>(i, x, es, r). if x \<noteq> VUndefined \<and> es = [] then r else x) results))"

definition then_rules ::
  "joi_env \<Rightarrow> (string \<times> string) list \<Rightarrow> string list \<Rightarrow> rule list \<Rightarrow>
     field_error list \<times> jsval \<Rightarrow> field_error list \<times> jsval" where
  "then_rules env ms path rs parts =
     (if fst parts \<noteq> [] then parts else run_rules env ms path rs (snd parts))"

definition with_only ::
  "(string \<times> string) list \<Rightarrow> string list \<Rightarrow> bool \<Rightarrow> jsval \<Rightarrow>
     field_error list \<times> jsval \<Rightarrow> field_error list \<times> jsval" where
  "with_only ms path only v result =
     ((if only then [joi_error ms path ''any.only'' v] else []) @ fst result, snd result)"

text \<open>
  \<^verbatim>\<open>schema.validate(value, options)\<close>: the errors, empty when the value is valid, and the
  converted value. In order: conversion; presence; the allowed values; the check of the
  type, whose failure ends the validation of this value; the parts; the rules.
\<close>

fun validate ::
  "joi_env \<Rightarrow> bool \<Rightarrow> string list \<Rightarrow> schema \<Rightarrow> jsval \<Rightarrow> field_error list \<times> jsval" where
  "validate env strip path (Schema k p d vs only rs ms) v0 =
     (let v = coerce env k rs v0
      in if v = VUndefined then absent_result env ms path p d
         else if p = Forbidden then ([joi_error ms path ''any.unknown'' v], v)
         else if v \<in> set vs then ([], v)
         else with_only ms path only v
           (case base_error k v of
              Some code \<Rightarrow> ([joi_error ms path code v], v)
            | None \<Rightarrow>
                then_rules env ms path rs
                  (case (k, v) of
                     (KObject ks, VObj kvs) \<Rightarrow>
                       collect_object strip ms path (map fst ks) kvs
                         (map (\<lambda>(key, s).
                                 (key, validate env strip (path @ [key]) s (js_prop v key))) ks)
                   | (KArray s, VArr xs) \<Rightarrow>
                       collect_array ms path
                         (map (\<lambda>(i, x). (i, x, validate env strip (path @ [show_nat i]) s x))
                            (zip [0..<length xs] xs))
                   | _ \<Rightarrow> ([], v))))"

declare validate.simps [simp del]

text \<open>The validation of each declared key of an object, and the keys a schema declares.\<close>

definition object_children ::
  "joi_env \<Rightarrow> bool \<Rightarrow> string list \<Rightarrow> (string \<times> schema) list \<Rightarrow> jsval \<Rightarrow>
     (string \<times> field_error list \<times> jsval) list" where
  "object_children env strip path ks v =
     map (\<lambda>(key, s). (key, validate env strip (path @ [key]) s (js_prop v key))) ks"

definition declared_keys :: "schema \<Rightarrow> string list" where
  "declared_keys s = (case schema_kind s of KObject ks \<Rightarrow> map fst ks | _ \<Rightarrow> [])"

text \<open>
  What \<^verbatim>\<open>stripUnknown\<close> removes from a value, at every depth: in an object validated by an
  object schema the keys that schema does not declare, and so on inside the values of the
  declared keys and the items of arrays.
\<close>

fun strip_unknown :: "schema \<Rightarrow> jsval \<Rightarrow> jsval" where
  "strip_unknown s (VObj kvs) =
     (case schema_kind s of
        KObject ks \<Rightarrow>
          VObj (filter (\<lambda>(key, x). key \<in> set (map fst ks))
                  (map (\<lambda>(key, x). (key, case map_of ks key of
                                             Some s' \<Rightarrow> strip_unknown s' x
                                           | None \<Rightarrow> x)) kvs))
      | _ \<Rightarrow> VObj kvs)"
| "strip_unknown s (VArr xs) =
     (case schema_kind s of
        KArray s' \<Rightarrow> VArr (map (strip_unknown s') xs)
      | _ \<Rightarrow> VArr xs)"
| "strip_unknown s v = v"

text \<open>
  The shape the object and array schemas of this service have: not forbidden, no list of
  allowed values, no rule other than a bound on the number of keys, no default other than
  the empty object or array, and keys declared once.
\<close>

fun is_size_rule :: "rule \<Rightarrow> bool" where
  "is_size_rule (Min n) = True"
| "is_size_rule (Max n) = True"
| "is_size_rule r = False"

fun plain :: "schema \<Rightarrow> bool" where
  "plain (Schema k p d vs only rs ms) =
     (case k of
        KObject ks \<Rightarrow>
          p \<noteq> Forbidden \<and> vs = [] \<and> \<not> only \<and> list_all is_size_rule rs \<and>
          (d = NoDefault \<or> d = Default (VObj [])) \<and>
          distinct (map fst ks) \<and> list_all (\<lambda>(key, s). plain s) ks
      | KArray s \<Rightarrow>
          p \<noteq> Forbidden \<and> vs = [] \<and> \<not> only \<and> rs = [] \<and>
          (d = NoDefault \<or> d = Default (VArr [])) \<and> plain s
      | _ \<Rightarrow> True)"

section \<open>validators/customerValidator.ts\<close>

definition trim :: "schema \<Rightarrow> schema" where
  "trim = add_rule Trim"

definition lowercase :: "schema \<Rightarrow> schema" where
  "lowercase = add_rule Lowercase"

definition minimum :: "int \<Rightarrow> schema \<Rightarrow> schema" where
  "minimum n = add_rule (Min n)"

definition maximum :: "int \<Rightarrow> schema \<Rightarrow> schema" where
  "maximum n = add_rule (Max n)"

definition email_rule :: "schema \<Rightarrow> schema" where
  "email_rule = add_rule Email"

definition pattern :: "rexp \<Rightarrow> schema \<Rightarrow> schema" where
  "pattern r = add_rule (Pattern r)"

definition integer :: "schema \<Rightarrow> schema" where
  "integer = add_rule Integer"

definition max_now :: "schema \<Rightarrow> schema" where
  "max_now = add_rule MaxNow"

definition custom :: "(jsdate \<Rightarrow> jsval \<Rightarrow> string + jsval) \<Rightarrow> schema \<Rightarrow> schema" where
  "custom f = add_rule (Custom f)"

definition addressSchema :: schema where
  "addressSchema = Joi (KObject
     [(''street'', chain (Joi KString) [trim, minimum 5, maximum 200, required,
         messages [(''string.empty'', ''Street address is required''),
                   (''string.min'', ''Street address must be at least 5 characters''),
                   (''string.max'', ''Street address must not exceed 200 characters'')]]),
      (''city'', chain (Joi KString) [trim, minimum 2, maximum 100, required,
         messages [(''string.empty'', ''City is required''),
                   (''string.min'', ''City must be at least 2 characters''),
                   (''string.max'', ''City must not exceed 100 characters'')]]),
      (''state'', chain (Joi KString) [trim, minimum 2, maximum 100, required,
         messages [(''string.empty'', ''State is required''),
                   (''string.min'', ''State must be at least 2 characters''),
                   (''string.max'', ''State must not exceed 100 characters'')]]),
      (''postalCode'', chain (Joi KString) [trim, minimum 3, maximum 20, required,
         messages [(''string.empty'', ''Postal code is required''),
                   (''string.min'', ''Postal code must be at least 3 characters''),
                   (''string.max'', ''Postal code must not exceed 20 characters'')]]),
      (''country'', chain (Joi KString) [trim, minimum 2, maximum 100, optional,
         default_to (Default (VStr ''Colombia''))])])"

definition notificationPreferencesSchema :: schema where
  "notificationPreferencesSchema = Joi (KObject
     [(''email'', chain (Joi KBoolean) [default_to (Default (VBool True))]),
      (''sms'', chain (Joi KBoolean) [default_to (Default (VBool True))]),
      (''push'', chain (Joi KBoolean) [default_to (Default (VBool True))])])"

definition customerPreferencesSchema :: schema where
  "customerPreferencesSchema = Joi (KObject
     [(''language'', chain (Joi KString)
         [valid [VStr ''es'', VStr ''en''], default_to (Default (VStr ''es''))]),
      (''currency'', chain (Joi KString)
         [valid [VStr ''COP'', VStr ''USD'', VStr ''EUR''], default_to (Default (VStr ''COP''))]),
      (''notificationPreferences'',
         chain notificationPreferencesSchema [default_to (Default (VObj []))]),
      (''marketingConsent'', chain (Joi KBoolean) [default_to (Default (VBool False))])])"

definition document_types :: "jsval list" where
  "document_types =
     [VStr ''national_id'', VStr ''passport'', VStr ''driving_license'', VStr ''address_proof'',
      VStr ''income_proof'', VStr ''other'']"

definition kycDocumentSchema :: schema where
  "kycDocumentSchema = Joi (KObject
     [(''type'', chain (Joi KString) [valid document_types, required]),
      (''filename'', chain (Joi KString) [trim, minimum 1, maximum 255, required]),
      (''uploadDate'', chain (Joi KDate) [default_to DefaultNow]),
      (''verified'', chain (Joi KBoolean) [default_to (Default (VBool False))]),
      (''verifiedBy'', chain (Joi KString) [trim, optional]),
      (''verifiedAt'', chain (Joi KDate) [optional])])"

text \<open>The custom rule of \<^verbatim>\<open>dateOfBirth\<close>: the age in whole years on the day of validation.\<close>

definition age_on :: "jsdate \<Rightarrow> jsdate \<Rightarrow> int" where
  "age_on today v =
     (let age = getFullYear today - getFullYear v;
          monthDiff = getMonth today - getMonth v
      in if monthDiff < 0 \<or> (monthDiff = 0 \<and> getDate today < getDate v) then age - 1 else age)"

definition age_rule :: "jsdate \<Rightarrow> jsval \<Rightarrow> string + jsval" where
  "age_rule today v =
     (case v of
        VDate d \<Rightarrow>
          if age_on today d < 18 then Inl ''any.invalid''
          else if 120 < age_on today d then Inl ''any.invalid''
          else Inr v
      | _ \<Rightarrow> Inr v)"

text \<open>
  The calendar day after a date, as \<^verbatim>\<open>setDate(getDate() + 1)\<close> gives it: used to state what
  "one day short of 18 years" is.
\<close>

definition days_in_month :: "int \<Rightarrow> int \<Rightarrow> int" where
  "days_in_month y m =
     (if m = 1 then (if y mod 4 = 0 \<and> (y mod 100 \<noteq> 0 \<or> y mod 400 = 0) then 29 else 28)
      else if m = 3 \<or> m = 5 \<or> m = 8 \<or> m = 10 then 30 else 31)"

definition next_day :: "jsdate \<Rightarrow> jsdate" where
  "next_day d =
     (if getDate d < days_in_month (getFullYear d) (getMonth d) then d\<lparr>getDate := getDate d + 1\<rparr>
      else if getMonth d < 11 then d\<lparr>getMonth := getMonth d + 1, getDate := 1\<rparr>
      else d\<lparr>getFullYear := getFullYear d + 1, getMonth := 0, getDate := 1\<rparr>)"

definition years_before :: "int \<Rightarrow> jsdate \<Rightarrow> jsdate" where
  "years_before n d = d\<lparr>getFullYear := getFullYear d - n\<rparr>"

definition dateOfBirthSchema :: schema where
  "dateOfBirthSchema =
     chain (Joi KDate) [max_now, required, custom age_rule,
       messages [(''date.max'', ''Date of birth cannot be in the future''),
                 (''any.invalid'', ''Customer must be between 18 and 120 years old''),
                 (''any.required'', ''Date of birth is required'')]]"

definition createCustomerSchema :: schema where
  "createCustomerSchema = Joi (KObject
     [(''firstName'', chain (Joi KString) [trim, minimum 2, maximum 50, required,
         messages [(''string.empty'', ''First name is required''),
                   (''string.min'', ''First name must be at least 2 characters''),
                   (''string.max'', ''First name must not exceed 50 characters'')]]),
      (''lastName'', chain (Joi KString) [trim, minimum 2, maximum 50, required,
         messages [(''string.empty'', ''Last name is required''),
                   (''string.min'', ''Last name must be at least 2 characters''),
                   (''string.max'', ''Last name must not exceed 50 characters'')]]),
      (''email'', chain (Joi KString) [email_rule, lowercase, trim, required,
         messages [(''string.email'', ''Please provide a valid email address''),
                   (''string.empty'', ''Email is required'')]]),
      (''phone'', chain (Joi KString) [trim, pattern phone_pattern, required,
         messages [(''string.pattern.base'', ''Please provide a valid phone number (10-15 digits)''),
                   (''string.empty'', ''Phone number is required'')]]),
      (''dateOfBirth'', dateOfBirthSchema),
      (''nationalId'', chain (Joi KString) [trim, minimum 8, maximum 20, required,
         messages [(''string.empty'', ''National ID is required''),
                   (''string.min'', ''National ID must be at least 8 characters''),
                   (''string.max'', ''National ID must not exceed 20 characters'')]]),
      (''passportNumber'', chain (Joi KString) [trim, minimum 6, maximum 15, optional,
         messages [(''string.min'', ''Passport number must be at least 6 characters''),
                   (''string.max'', ''Passport number must not exceed 15 characters'')]]),
      (''address'', chain addressSchema [required]),
      (''documents'', chain (Joi (KArray kycDocumentSchema))
         [optional, default_to (Default (VArr []))]),
      (''preferences'', chain customerPreferencesSchema
         [optional, default_to (Default (VObj []))])])"

definition updateCustomerSchema :: schema where
  "updateCustomerSchema = chain (Joi (KObject
     [(''firstName'', chain (Joi KString) [trim, minimum 2, maximum 50, optional]),
      (''lastName'', chain (Joi KString) [trim, minimum 2, maximum 50, optional]),
      (''email'', chain (Joi KString) [email_rule, lowercase, trim, optional]),
      (''phone'', chain (Joi KString) [trim, pattern phone_pattern, optional]),
      (''address'', chain addressSchema [optional]),
      (''preferences'', chain customerPreferencesSchema [optional]),
      (''passportNumber'', chain (Joi KString)
         [trim, minimum 6, maximum 15, optional, allow [VNull, VStr '''']]),
      (''nationalId'', chain (Joi KAny) [forbidden,
         messages [(''any.unknown'', ''National ID cannot be updated directly'')]]),
      (''dateOfBirth'', chain (Joi KAny) [forbidden,
         messages [(''any.unknown'', ''Date of birth cannot be updated directly'')]]),
      (''documents'', chain (Joi KAny) [forbidden,
         messages [(''any.unknown'', ''Documents must be updated through dedicated endpoints'')]]),
      (''emailVerified'', chain (Joi KAny) [forbidden]),
      (''phoneVerified'', chain (Joi KAny) [forbidden]),
      (''identityVerified'', chain (Joi KAny) [forbidden]),
      (''complianceStatus'', chain (Joi KAny) [forbidden]),
      (''status'', chain (Joi KAny) [forbidden])]))
     [minimum 1, messages [(''object.min'', ''At least one field must be provided for update'')]]"

definition customerIdSchema :: schema where
  "customerIdSchema = Joi (KObject
     [(''id'', chain (Joi KString) [pattern object_id_pattern, required,
         messages [(''string.pattern.base'', ''Invalid customer ID format''),
                   (''any.required'', ''Customer ID is required'')]])])"

definition addKycDocumentSchema :: schema where
  "addKycDocumentSchema = Joi (KObject
     [(''type'', chain (Joi KString) [valid document_types, required]),
      (''filename'', chain (Joi KString) [trim, minimum 1, maximum 255, required])])"

definition searchCustomerSchema :: schema where
  "searchCustomerSchema = Joi (KObject
     [(''q'', chain (Joi KString) [trim, minimum 3, maximum 100, optional,
         messages [(''string.min'', ''Search query must be at least 3 characters''),
                   (''string.max'', ''Search query must not exceed 100 characters'')]]),
      (''status'', chain (Joi KString)
         [valid [VStr ''active'', VStr ''inactive'', VStr ''suspended'',
                 VStr ''pending_verification''], optional]),
      (''complianceStatus'', chain (Joi KString)
         [valid [VStr ''pending'', VStr ''approved'', VStr ''rejected'', VStr ''under_review''],
          optional]),
      (''country'', chain (Joi KString) [trim, minimum 2, maximum 100, optional]),
      (''page'', chain (Joi KNumber) [integer, minimum 1, default_to (Default (VNum 1))]),
      (''limit'', chain (Joi KNumber)
         [integer, minimum 1, maximum 100, default_to (Default (VNum 10))])])"

text \<open>
  The three middlewares. \<open>Inl\<close> is the 400 the middleware answers itself, after which
  nothing else runs; \<open>Inr\<close> is what the rest of the chain, \<open>next\<close>, makes of the validated
  value.
\<close>

definition respond_or_next ::
  "string \<Rightarrow> field_error list \<times> jsval \<Rightarrow> (jsval \<Rightarrow> 'a) \<Rightarrow> reply + 'a" where
  "respond_or_next m result next =
     (if fst result \<noteq> [] then Inl (Reply 400 (FailureBody m (fst result)))
      else Inr (next (snd result)))"

definition validateRequest :: "joi_env \<Rightarrow> schema \<Rightarrow> jsval \<Rightarrow> (jsval \<Rightarrow> 'a) \<Rightarrow> reply + 'a" where
  "validateRequest env schema body next =
     respond_or_next ''Validation error'' (validate env True [] schema body) next"

definition validateParams :: "joi_env \<Rightarrow> schema \<Rightarrow> jsval \<Rightarrow> (jsval \<Rightarrow> 'a) \<Rightarrow> reply + 'a" where
  "validateParams env schema params next =
     respond_or_next ''Invalid parameters'' (validate env False [] schema params) next"

definition validateQuery :: "joi_env \<Rightarrow> schema \<Rightarrow> jsval \<Rightarrow> (jsval \<Rightarrow> 'a) \<Rightarrow> reply + 'a" where
  "validateQuery env schema query next =
     respond_or_next ''Invalid query parameters'' (validate env True [] schema query) next"

text \<open>
  The handlers read the validated value field by field. These give the typed view of a
  validated body and of a validated query, \<open>None\<close> for a value that has not the shape
  the schema lets through.
\<close>

definition as_string :: "jsval \<Rightarrow> string option" where
  "as_string v = (case v of VStr s \<Rightarrow> Some s | _ \<Rightarrow> None)"

definition as_date :: "jsval \<Rightarrow> jsdate option" where
  "as_date v = (case v of VDate d \<Rightarrow> Some d | _ \<Rightarrow> None)"

definition as_bool :: "jsval \<Rightarrow> bool option" where
  "as_bool v = (case v of VBool b \<Rightarrow> Some b | _ \<Rightarrow> None)"

definition as_integer :: "jsval \<Rightarrow> int option" where
  "as_integer v = (case v of VNum x \<Rightarrow> if of_int \<lfloor>x\<rfloor> = x then Some \<lfloor>x\<rfloor> else None | _ \<Rightarrow> None)"

definition if_defined :: "(jsval \<Rightarrow> 'a option) \<Rightarrow> jsval \<Rightarrow> 'a option option" where
  "if_defined f v = (if v = VUndefined then Some None else map_option Some (f v))"

definition decodeAddress :: "jsval \<Rightarrow> Address option" where
  "decodeAddress v = do {
     a \<leftarrow> as_string (js_prop v ''street'');
     b \<leftarrow> as_string (js_prop v ''city'');
     c \<leftarrow> as_string (js_prop v ''state'');
     d \<leftarrow> as_string (js_prop v ''postalCode'');
     e \<leftarrow> as_string (js_prop v ''country'');
     Some \<lparr>street = a, city = b, state = c, postalCode = d, country = e\<rparr>
   }"

definition decodeDocument :: "jsval \<Rightarrow> KYCDocument option" where
  "decodeDocument v = do {
     a \<leftarrow> as_string (js_prop v ''type'');
     b \<leftarrow> as_string (js_prop v ''filename'');
     c \<leftarrow> as_date (js_prop v ''uploadDate'');
     d \<leftarrow> as_bool (js_prop v ''verified'');
     e \<leftarrow> if_defined as_string (js_prop v ''verifiedBy'');
     f \<leftarrow> if_defined as_date (js_prop v ''verifiedAt'');
     Some \<lparr>doc_type = a, filename = b, uploadDate = c, verified = d, verifiedBy = e,
           verifiedAt = f\<rparr>
   }"

definition decodeNotifications :: "jsval \<Rightarrow> NotificationInput option" where
  "decodeNotifications v = do {
     a \<leftarrow> if_defined as_bool (js_prop v ''email'');
     b \<leftarrow> if_defined as_bool (js_prop v ''sms'');
     c \<leftarrow> if_defined as_bool (js_prop v ''push'');
     Some \<lparr>ni_email = a, ni_sms = b, ni_push = c\<rparr>
   }"

definition decodePreferences :: "jsval \<Rightarrow> PreferencesInput option" where
  "decodePreferences v = do {
     a \<leftarrow> if_defined as_string (js_prop v ''language'');
     b \<leftarrow> if_defined as_string (js_prop v ''currency'');
     c \<leftarrow> if_defined decodeNotifications (js_prop v ''notificationPreferences'');
     d \<leftarrow> if_defined as_bool (js_prop v ''marketingConsent'');
     Some \<lparr>pi_language = a, pi_currency = b, pi_notificationPreferences = c,
           pi_marketingConsent = d\<rparr>
   }"

definition decodeCustomerData :: "jsval \<Rightarrow> CustomerData option" where
  "decodeCustomerData v = do {
     a \<leftarrow> as_string (js_prop v ''firstName'');
     b \<leftarrow> as_string (js_prop v ''lastName'');
     c \<leftarrow> as_string (js_prop v ''email'');
     d \<leftarrow> as_string (js_prop v ''phone'');
     e \<leftarrow> as_date (js_prop v ''dateOfBirth'');
     f \<leftarrow> as_string (js_prop v ''nationalId'');
     g \<leftarrow> if_defined as_string (js_prop v ''passportNumber'');
     h \<leftarrow> decodeAddress (js_prop v ''address'');
     i \<leftarrow> (case js_prop v ''documents'' of VArr xs \<Rightarrow> those (map decodeDocument xs)
           | _ \<Rightarrow> None);
     j \<leftarrow> decodePreferences (js_prop v ''preferences'');
     Some \<lparr>cd_firstName = a, cd_lastName = b, cd_email = c, cd_phone = d, cd_dateOfBirth = e,
           cd_nationalId = f, cd_passportNumber = g, cd_address = h, cd_documents = i,
           cd_preferences = j\<rparr>
   }"

definition decodeQuery :: "jsval \<Rightarrow> ValidatedQuery option" where
  "decodeQuery v = do {
     a \<leftarrow> if_defined as_string (js_prop v ''q'');
     b \<leftarrow> if_defined as_string (js_prop v ''status'');
     c \<leftarrow> if_defined as_string (js_prop v ''complianceStatus'');
     d \<leftarrow> if_defined as_string (js_prop v ''country'');
     e \<leftarrow> as_integer (js_prop v ''page'');
     f \<leftarrow> as_integer (js_prop v ''limit'');
     Some \<lparr>q = a, q_status = b, q_complianceStatus = c, q_country = d, page = e, limit = f\<rparr>
   }"

section \<open>Dates written as text\<close>

text \<open>
  A request carries a date as text, and the validation library reads it with
  \<^verbatim>\<open>new Date(text)\<close>. For the date-only form \<^verbatim>\<open>YYYY-MM-DD\<close> the language defines the result
  as midnight UTC of that day; the getters the validators use (\<^verbatim>\<open>getFullYear\<close>,
  \<^verbatim>\<open>getMonth\<close>, \<^verbatim>\<open>getDate\<close>) read it on the host's clock. \<open>offset\<close> is how many minutes
  the host's clock is ahead of UTC, negative west of Greenwich and more than \<open>-1440\<close>:
  east of Greenwich the local fields are the written day, at \<open>offset\<close> minutes past
  midnight; west of it they are the day before. Only text that names a day of the
  calendar is read here.
\<close>

definition prev_day :: "jsdate \<Rightarrow> jsdate" where
  "prev_day d =
     (if 1 < getDate d then d\<lparr>getDate := getDate d - 1\<rparr>
      else if 0 < getMonth d
        then d\<lparr>getMonth := getMonth d - 1,
               getDate := days_in_month (getFullYear d) (getMonth d - 1)\<rparr>
      else d\<lparr>getFullYear := getFullYear d - 1, getMonth := 11, getDate := 31\<rparr>)"

definition on_host_clock :: "int \<Rightarrow> jsdate \<Rightarrow> jsdate" where
  "on_host_clock offset utc_midnight =
     (if 0 \<le> offset then utc_midnight\<lparr>getTimeOfDay := offset * 60000\<rparr>
      else (prev_day utc_midnight)\<lparr>getTimeOfDay := 86400000 + offset * 60000\<rparr>)"

definition date_only_pattern :: rexp where
  "date_only_pattern =
     seqs [rep 4 (Cls digit_chars), Cls ''-'', rep 2 (Cls digit_chars),
           Cls ''-'', rep 2 (Cls digit_chars)]"

definition new_Date :: "int \<Rightarrow> jsval \<Rightarrow> jsdate option" where
  "new_Date offset v =
     (case v of
        VStr s \<Rightarrow>
          if regex_test date_only_pattern s
          then (let y = int (digits_value (take 4 s));
                    m = int (digits_value (take 2 (drop 5 s))) - 1;
                    d = int (digits_value (drop 8 s))
                in if 0 \<le> m \<and> m \<le> 11 \<and> 1 \<le> d \<and> d \<le> days_in_month y m
                   then Some (on_host_clock offset
                          \<lparr>getFullYear = y, getMonth = m, getDate = d, getTimeOfDay = 0\<rparr>)
                   else None)
          else None
      | _ \<Rightarrow> None)"

section \<open>Sample data\<close>

text \<open>
  The inputs at which the properties below are evaluated: the example customer of the
  specification's scenario (her email as the validator has normalised it), registered on
  3 November 2026, and the gateway's default configuration.
\<close>

definition sample_today :: jsdate where
  "sample_today = \<lparr>getFullYear = 2026, getMonth = 10, getDate = 3, getTimeOfDay = 43200000\<rparr>"

definition ana_data :: CustomerData where
  "ana_data =
     \<lparr>cd_firstName = ''Ana'', cd_lastName = ''Ruiz'', cd_email = ''ana@x.com'',
      cd_phone = ''+57 300 111 2222'',
      cd_dateOfBirth = \<lparr>getFullYear = 1990, getMonth = 0, getDate = 1, getTimeOfDay = 0\<rparr>,
      cd_nationalId = ''12345678'', cd_passportNumber = None,
      cd_address = \<lparr>street = ''Calle 1'', city = ''Bogota'', state = ''Cund.'',
                     postalCode = ''110001'', country = ''Colombia''\<rparr>,
      cd_documents = [],
      cd_preferences = \<lparr>pi_language = None, pi_currency = None,
                         pi_notificationPreferences = None, pi_marketingConsent = None\<rparr>\<rparr>"

definition sample_later :: jsdate where
  "sample_later = \<lparr>getFullYear = 2026, getMonth = 10, getDate = 4, getTimeOfDay = 0\<rparr>"

text \<open>Ana's record as \<^verbatim>\<open>createCustomer\<close> stores it, and a second customer registered a day later.\<close>

definition ana :: ICustomer where
  "ana =
     \<lparr>oid = ''64b7f0a1c2d3e4f5a6b7c8d9'',
      firstName = ''Ana'', lastName = ''Ruiz'', email = ''ana@x.com'',
      phone = ''+57 300 111 2222'',
      dateOfBirth = \<lparr>getFullYear = 1990, getMonth = 0, getDate = 1, getTimeOfDay = 0\<rparr>,
      nationalId = ''12345678'', passportNumber = None,
      address = \<lparr>street = ''Calle 1'', city = ''Bogota'', state = ''Cund.'',
                  postalCode = ''110001'', country = ''Colombia''\<rparr>,
      documents = [],
      emailVerified = False, phoneVerified = False, identityVerified = False,
      preferences =
        \<lparr>language = ''es'', currency = ''COP'',
         notificationPreferences = \<lparr>np_email = True, np_sms = True, np_push = True\<rparr>,
         marketingConsent = False\<rparr>,
      registrationDate = sample_today, lastLoginDate = None,
      status = ''pending_verification'', complianceStatus = ''pending'',
      complianceNotes = None, complianceCheckedAt = None,
      createdAt = sample_today, updatedAt = sample_today, versionKey = 0\<rparr>"

definition luis :: ICustomer where
  "luis =
     ana\<lparr>oid := ''64b7f0a1c2d3e4f5a6b7c8da'', firstName := ''Luis'', email := ''luis@x.com'',
         nationalId := ''87654321'', registrationDate := sample_later,
         createdAt := sample_later, updatedAt := sample_later\<rparr>"

definition sample_client :: ExternalServicesClient where
  "sample_client =
     \<lparr>ms2BaseUrl = ''http://localhost:3001'', ms4BaseUrl = ''http://localhost:3003'',
      timeoutMs = 5000\<rparr>"

text \<open>
  A runtime for the evaluated examples: a host whose clock is on UTC, and an address check
  that accepts \<^verbatim>\<open>local@domain.tld\<close> written with letters, digits and the usual
  punctuation. The request body is the one of the specification's scenario.
\<close>

definition letter_chars :: "char list" where
  "letter_chars = ''abcdefghijklmnopqrstuvwxyz'' @ ''ABCDEFGHIJKLMNOPQRSTUVWXYZ''"

definition sample_address_pattern :: rexp where
  "sample_address_pattern =
     seqs [Plus (Cls (word_chars @ ''.%+-'')), Cls ''@'',
           Plus (Seq (Plus (Cls (letter_chars @ digit_chars @ ''-''))) (Cls ''.'')),
           rep 2 (Cls letter_chars), Star (Cls letter_chars)]"

definition sample_env :: joi_env where
  "sample_env =
     \<lparr>env_now = sample_today, env_toDate = new_Date 0,
      env_isEmail = regex_test sample_address_pattern\<rparr>"

text \<open>
  The same service on a host in Bogota, five hours behind UTC, at noon of 3 November 2026
  on its clock.
\<close>

definition bogota_env :: joi_env where
  "bogota_env =
     \<lparr>env_now = sample_today, env_toDate = new_Date (- 300),
      env_isEmail = regex_test sample_address_pattern\<rparr>"



text \<open>
  The same registration by someone born on 4 November 2008, who turns 18 the day after
  3 November 2026.
\<close>

definition minor_fields :: "(string \<times> jsval) list" where
  "minor_fields =
     [(''firstName'', VStr ''Ana''), (''lastName'', VStr ''Ruiz''), (''email'', VStr ''ANA@X.COM''),
      (''phone'', VStr ''+57 300 111 2222''), (''dateOfBirth'', VStr ''2008-11-04''),
      (''nationalId'', VStr ''12345678''),
      (''address'', VObj [(''street'', VStr ''Calle 1''), (''city'', VStr ''Bogota''),
                          (''state'', VStr ''Cund.''), (''postalCode'', VStr ''110001'')])]"

text \<open>
  Ana's registration with fields no schema declares: \<^verbatim>\<open>role\<close> in the body, \<^verbatim>\<open>isAdmin\<close> in
  the address, \<^verbatim>\<open>owner\<close> in a document, \<^verbatim>\<open>vip\<close> in the preferences and \<^verbatim>\<open>fax\<close> in the
  notification preferences.
\<close>

definition padded_fields :: "(string \<times> jsval) list" where
  "padded_fields =
     [(''firstName'', VStr ''Ana''), (''lastName'', VStr ''Ruiz''), (''email'', VStr ''ANA@X.COM''),
      (''role'', VStr ''admin''),
      (''phone'', VStr ''+57 300 111 2222''), (''dateOfBirth'', VStr ''1990-01-01''),
      (''nationalId'', VStr ''12345678''),
      (''address'', VObj [(''street'', VStr ''Calle 1''), (''isAdmin'', VBool True),
                          (''city'', VStr ''Bogota''), (''state'', VStr ''Cund.''),
                          (''postalCode'', VStr ''110001'')]),
      (''documents'', VArr [VObj [(''type'', VStr ''passport''), (''owner'', VStr ''Ana''),
                                  (''filename'', VStr ''passport.pdf'')]]),
      (''preferences'', VObj [(''vip'', VBool True),
                              (''notificationPreferences'',
                                 VObj [(''email'', VBool False), (''fax'', VBool True)])])]"

section \<open>Properties\<close>

subsection \<open>The compliance gateway\<close>

text \<open>
  C4, amended. Whatever the request, \<^verbatim>\<open>triggerComplianceCheck\<close> returns \<^verbatim>\<open>null\<close> when the
  call fails with a throwable that is no axios error, with a refused connection, with an
  axios error whose response status is not 400 (a 5xx among them) or that has no response,
  and when the response arrives without a truthy \<^verbatim>\<open>success\<close> flag. On a response of status
  400 (the connection not refused) it throws \<^verbatim>\<open>Compliance validation error: ...\<close> with the
  remote message, or \<^verbatim>\<open>Invalid data\<close> when there is none; the background callback of the
  controller catches that error and logs it.
\<close>

theorem triggerComplianceCheck_failures:
  assumes "axios_post net (ms4BaseUrl client @ ''/api/compliance/check'') request = result"
  shows "(result = RejectedOther \<longrightarrow> triggerComplianceCheck net client request = Inr VNull)
    \<and> (\<forall>e. result = RejectedAxios e \<and>
            (error_code e = Some ''ECONNREFUSED'' \<or> error_status e \<noteq> Some 400) \<longrightarrow>
          triggerComplianceCheck net client request = Inr VNull)
    \<and> (\<forall>r. result = Fulfilled r \<and>
            \<not> (truthy (response_data r) \<and> truthy (js_prop (response_data r) ''success'')) \<longrightarrow>
          triggerComplianceCheck net client request = Inr VNull)
    \<and> (\<forall>e. result = RejectedAxios e \<and> error_code e \<noteq> Some ''ECONNREFUSED'' \<and>
            error_status e = Some 400 \<longrightarrow>
          triggerComplianceCheck net client request =
            Inl [Lit ''Compliance validation error: '',
                 Interp (js_or (error_remote_message e) (VStr ''Invalid data''))]
          \<and> (\<forall>customer. complianceRequest customer = request \<longrightarrow>
                complianceCallback net client customer =
                  LogError (oid customer)
                    [Lit ''Compliance validation error: '',
                     Interp (js_or (error_remote_message e) (VStr ''Invalid data''))]))"
  using assms by (auto simp: triggerComplianceCheck_def complianceCallback_def)

text \<open>The theorem at a remote 503: the gateway returns \<^verbatim>\<open>null\<close>.\<close>

theorem triggerComplianceCheck_failures_witness:
  "triggerComplianceCheck
     \<lparr>axios_get = (\<lambda>u. RejectedOther),
      axios_post = (\<lambda>u r. RejectedAxios (AxiosError (Some ''ERR_BAD_RESPONSE'')
         ''Request failed with status code 503'' (Some (AxiosResponse 503 VNull))))\<rparr>
     \<lparr>ms2BaseUrl = ''http://localhost:3001'', ms4BaseUrl = ''http://localhost:3003'',
      timeoutMs = 5000\<rparr>
     \<lparr>ccr_customerId = ''0123456789abcdef01234567'',
      ccr_customerData =
        \<lparr>ccd_firstName = ''Ana'', ccd_lastName = ''Ruiz'', ccd_email = ''ana@x.com'',
         ccd_nationalId = ''12345678'',
         ccd_dateOfBirth = \<lparr>getFullYear = 1990, getMonth = 0, getDate = 1, getTimeOfDay = 0\<rparr>,
         ccd_address =
           \<lparr>cca_country = ''Colombia'', cca_state = ''Cund.'', cca_city = ''Bogota''\<rparr>\<rparr>,
      ccr_documents = []\<rparr>
   = Inr VNull"
  using triggerComplianceCheck_failures
    [of "\<lparr>axios_get = (\<lambda>u. RejectedOther),
      axios_post = (\<lambda>u r. RejectedAxios (AxiosError (Some ''ERR_BAD_RESPONSE'')
         ''Request failed with status code 503'' (Some (AxiosResponse 503 VNull))))\<rparr>"
     "\<lparr>ms2BaseUrl = ''http://localhost:3001'', ms4BaseUrl = ''http://localhost:3003'',
      timeoutMs = 5000\<rparr>"
     "\<lparr>ccr_customerId = ''0123456789abcdef01234567'',
      ccr_customerData =
        \<lparr>ccd_firstName = ''Ana'', ccd_lastName = ''Ruiz'', ccd_email = ''ana@x.com'',
         ccd_nationalId = ''12345678'',
         ccd_dateOfBirth = \<lparr>getFullYear = 1990, getMonth = 0, getDate = 1, getTimeOfDay = 0\<rparr>,
         ccd_address =
           \<lparr>cca_country = ''Colombia'', cca_state = ''Cund.'', cca_city = ''Bogota''\<rparr>\<rparr>,
      ccr_documents = []\<rparr>"
     "RejectedAxios (AxiosError (Some ''ERR_BAD_RESPONSE'')
         ''Request failed with status code 503'' (Some (AxiosResponse 503 VNull)))"]
  by (simp add: error_status_def)

text \<open>
  C4 as stated fails: the remote service rejects the data with status 400 and the gateway
  throws instead of returning \<^verbatim>\<open>null\<close>.
\<close>

theorem triggerComplianceCheck_throws_on_400:
  "triggerComplianceCheck
     \<lparr>axios_get = (\<lambda>u. RejectedOther),
      axios_post = (\<lambda>u r. RejectedAxios (AxiosError (Some ''ERR_BAD_REQUEST'')
         ''Request failed with status code 400''
         (Some (AxiosResponse 400 (VObj [(''message'', VStr ''nationalId is not valid'')])))))\<rparr>
     \<lparr>ms2BaseUrl = ''http://localhost:3001'', ms4BaseUrl = ''http://localhost:3003'',
      timeoutMs = 5000\<rparr>
     \<lparr>ccr_customerId = ''0123456789abcdef01234567'',
      ccr_customerData =
        \<lparr>ccd_firstName = ''Ana'', ccd_lastName = ''Ruiz'', ccd_email = ''ana@x.com'',
         ccd_nationalId = ''12345678'',
         ccd_dateOfBirth = \<lparr>getFullYear = 1990, getMonth = 0, getDate = 1, getTimeOfDay = 0\<rparr>,
         ccd_address =
           \<lparr>cca_country = ''Colombia'', cca_state = ''Cund.'', cca_city = ''Bogota''\<rparr>\<rparr>,
      ccr_documents = []\<rparr>
   = Inl [Lit ''Compliance validation error: '', Interp (VStr ''nationalId is not valid'')]"
  by (simp add: triggerComplianceCheck_def error_status_def error_remote_message_def js_or_def)

subsection \<open>The accounts gateway\<close>

text \<open>
  C5, amended. For every accounts lookup: a remote 404 gives the empty list, and the
  controller answers 200 with no accounts; a refused connection makes the gateway throw
  \<^verbatim>\<open>Account service is currently unavailable\<close>; a remote 500 makes it throw the fixed text
  \<^verbatim>\<open>Account service error. Please try again later.\<close>, without the remote message; any
  other axios error makes it throw \<^verbatim>\<open>Account service error: \<close> followed by the remote
  message when the response carries one and by the message of the axios error otherwise; a
  throwable that is no axios error gives \<^verbatim>\<open>Failed to retrieve customer accounts\<close>. Whatever
  the gateway throws, the controller hands on as a 503 with the same message, for a
  customer that exists.
\<close>

theorem getCustomerAccounts_errors:
  assumes "axios_get net (ms2BaseUrl client @ ''/api/accounts/customer/'' @ i) = result"
  shows "(\<forall>e. result = RejectedAxios e \<and> error_code e \<noteq> Some ''ECONNREFUSED'' \<and>
            error_status e = Some 404 \<longrightarrow>
          getCustomerAccounts net client i = Inr (VArr []) \<and>
          (\<forall>customer. findById store i = Some customer \<longrightarrow>
             (\<exists>data. getAccounts now net client store i =
                Sent (sendSuccess now data
                  [Lit ''Retrieved '', Interp (VNum 0), Lit '' accounts for customer''] 200) \<and>
                js_prop data ''accounts'' = VArr [])))
    \<and> (\<forall>e. result = RejectedAxios e \<and> error_code e = Some ''ECONNREFUSED'' \<longrightarrow>
          getCustomerAccounts net client i =
            Inl [Lit ''Account service is currently unavailable. Please try again later.''])
    \<and> (\<forall>e. result = RejectedAxios e \<and> error_code e \<noteq> Some ''ECONNREFUSED'' \<and>
            error_status e = Some 500 \<longrightarrow>
          getCustomerAccounts net client i =
            Inl [Lit ''Account service error. Please try again later.''])
    \<and> (\<forall>e. result = RejectedAxios e \<and> error_code e \<noteq> Some ''ECONNREFUSED'' \<and>
            error_status e \<noteq> Some 404 \<and> error_status e \<noteq> Some 500 \<longrightarrow>
          getCustomerAccounts net client i =
            Inl [Lit ''Account service error: '',
                 Interp (js_or (error_remote_message e) (VStr (error_message e)))])
    \<and> (result = RejectedOther \<longrightarrow>
          getCustomerAccounts net client i =
            Inl [Lit ''Failed to retrieve customer accounts. Please try again later.''])
    \<and> (\<forall>m customer. getCustomerAccounts net client i = Inl m \<and>
            findById store i = Some customer \<longrightarrow>
          getAccounts now net client store i = Next (App (newAppError m 503)))"
  using assms by (auto simp: getCustomerAccounts_def getAccounts_def)

text \<open>The theorem at a refused connection: the request for Ana's accounts ends in a 503.\<close>

theorem getCustomerAccounts_errors_witness:
  "getAccounts sample_today
     \<lparr>axios_get = (\<lambda>u. RejectedAxios (AxiosError (Some ''ECONNREFUSED'')
        ''connect ECONNREFUSED 127.0.0.1:3001'' None)),
      axios_post = (\<lambda>u r. RejectedOther)\<rparr>
     sample_client [ana] ''64b7f0a1c2d3e4f5a6b7c8d9''
   = Next (App \<lparr>err_message =
                   [Lit ''Account service is currently unavailable. Please try again later.''],
                statusCode = 503, err_status = ''error'', isOperational = True\<rparr>)"
  using getCustomerAccounts_errors
    [of "\<lparr>axios_get = (\<lambda>u. RejectedAxios (AxiosError (Some ''ECONNREFUSED'')
        ''connect ECONNREFUSED 127.0.0.1:3001'' None)),
      axios_post = (\<lambda>u r. RejectedOther)\<rparr>"
      sample_client "''64b7f0a1c2d3e4f5a6b7c8d9''"
      "RejectedAxios (AxiosError (Some ''ECONNREFUSED'')
        ''connect ECONNREFUSED 127.0.0.1:3001'' None)"
      "[ana]" sample_today]
  by (simp add: findById_def ana_def newAppError_def lead_digit.simps)

text \<open>
  C5 as stated fails: the remote service answers 500 with a message of its own, and the
  error the gateway throws does not carry it.
\<close>

theorem getCustomerAccounts_drops_message_on_500:
  "getCustomerAccounts
     \<lparr>axios_get = (\<lambda>u. RejectedAxios (AxiosError (Some ''ERR_BAD_RESPONSE'')
        ''Request failed with status code 500''
        (Some (AxiosResponse 500 (VObj [(''message'', VStr ''ledger database is down'')]))))),
      axios_post = (\<lambda>u r. RejectedOther)\<rparr>
     sample_client ''64b7f0a1c2d3e4f5a6b7c8d9''
   = Inl [Lit ''Account service error. Please try again later.'']"
  by (simp add: getCustomerAccounts_def error_status_def)

subsection \<open>Soft delete\<close>

lemma find_Some_holds: "find P xs = Some x \<Longrightarrow> P x \<and> x \<in> set xs"
  by (induction xs) (auto split: if_splits)

lemma find_update_first:
  "find P xs = Some c \<Longrightarrow> P (f c) \<Longrightarrow> find P (update_first P f xs) = Some (f c)"
  by (induction xs) (auto split: if_splits)

lemma map_update_first:
  "(\<And>x. g (f x) = g x) \<Longrightarrow> map g (update_first P f xs) = map g xs"
  by (induction xs) auto

lemma update_first_twice:
  "(\<And>x. P x \<Longrightarrow> P (f x)) \<Longrightarrow>
   update_first P h (update_first P f xs) = update_first P (\<lambda>x. h (f x)) xs"
  by (induction xs) auto

lemma filter_update_first:
  "(\<And>x. P x \<Longrightarrow> P (f x)) \<Longrightarrow>
   filter (\<lambda>x. \<not> P x) (update_first P f xs) = filter (\<lambda>x. \<not> P x) xs"
  by (induction xs) auto

text \<open>
  C8. For a customer that is stored, \<^verbatim>\<open>deleteCustomer\<close> answers 200 with the message
  \<^verbatim>\<open>Customer deactivated successfully\<close> and no data, the first time and the second time.
  The first call replaces the customer's record by the same record with status
  \<^verbatim>\<open>inactive\<close> and the update timestamp of the call; the second call changes nothing
  but the update timestamp, so two calls leave the collection as one call at the later
  time does. After each call the record is found under its id with status \<^verbatim>\<open>inactive\<close>,
  the ids of the collection are the same in the same order, and the records of every
  other id are as they were. For an id that is not stored the call hands a 404
  \<^verbatim>\<open>Customer not found\<close> to the error handler and the collection is unchanged.
\<close>

theorem deleteCustomer_idempotent:
  "(\<forall>c. findById store i = Some c \<longrightarrow>
      deleteCustomer t1 store i =
        (update_first (\<lambda>x. oid x = i) (\<lambda>x. x\<lparr>status := ''inactive'', updatedAt := t1\<rparr>) store,
         Sent (Reply 200 (SuccessBody [Lit ''Customer deactivated successfully''] VNull t1))) \<and>
      deleteCustomer t2 (fst (deleteCustomer t1 store i)) i =
        (update_first (\<lambda>x. oid x = i) (\<lambda>x. x\<lparr>updatedAt := t2\<rparr>) (fst (deleteCustomer t1 store i)),
         Sent (Reply 200 (SuccessBody [Lit ''Customer deactivated successfully''] VNull t2))) \<and>
      fst (deleteCustomer t2 (fst (deleteCustomer t1 store i)) i) =
        update_first (\<lambda>x. oid x = i) (\<lambda>x. x\<lparr>status := ''inactive'', updatedAt := t2\<rparr>) store \<and>
      findById (fst (deleteCustomer t1 store i)) i =
        Some (c\<lparr>status := ''inactive'', updatedAt := t1\<rparr>) \<and>
      findById (fst (deleteCustomer t2 (fst (deleteCustomer t1 store i)) i)) i =
        Some (c\<lparr>status := ''inactive'', updatedAt := t2\<rparr>) \<and>
      map oid (fst (deleteCustomer t1 store i)) = map oid store \<and>
      map oid (fst (deleteCustomer t2 (fst (deleteCustomer t1 store i)) i)) = map oid store \<and>
      filter (\<lambda>x. oid x \<noteq> i) (fst (deleteCustomer t1 store i)) =
        filter (\<lambda>x. oid x \<noteq> i) store \<and>
      filter (\<lambda>x. oid x \<noteq> i) (fst (deleteCustomer t2 (fst (deleteCustomer t1 store i)) i)) =
        filter (\<lambda>x. oid x \<noteq> i) store)
   \<and> (findById store i = None \<longrightarrow>
        deleteCustomer t1 store i =
          (store, Next (App \<lparr>err_message = [Lit ''Customer not found''], statusCode = 404,
                             err_status = ''fail'', isOperational = True\<rparr>)))"
proof (intro conjI allI impI)
  assume "findById store i = None"
  then show "deleteCustomer t1 store i =
          (store, Next (App \<lparr>err_message = [Lit ''Customer not found''], statusCode = 404,
                             err_status = ''fail'', isOperational = True\<rparr>))"
    by (simp add: deleteCustomer_def newAppError_def lead_digit.simps)
next
  fix c assume found: "findById store i = Some c"
  let ?P = "\<lambda>x. oid x = i"
  let ?f1 = "\<lambda>x::ICustomer. x\<lparr>status := ''inactive'', updatedAt := t1\<rparr>"
  let ?f2 = "\<lambda>x::ICustomer. x\<lparr>status := ''inactive'', updatedAt := t2\<rparr>"
  let ?s1 = "update_first ?P ?f1 store"
  let ?s2 = "update_first ?P ?f2 ?s1"
  have oidc: "oid c = i"
    using find_Some_holds[of ?P store c] found by (simp add: findById_def)
  have f1: "findById ?s1 i = Some (?f1 c)"
    using found oidc by (simp add: findById_def find_update_first)
  have d1: "deleteCustomer t1 store i =
      (?s1, Sent (Reply 200 (SuccessBody [Lit ''Customer deactivated successfully''] VNull t1)))"
    using found by (simp add: deleteCustomer_def sendSuccess_def)
  have s1: "fst (deleteCustomer t1 store i) = ?s1"
    by (simp add: d1)
  have d2': "deleteCustomer t2 ?s1 i =
      (?s2, Sent (Reply 200 (SuccessBody [Lit ''Customer deactivated successfully''] VNull t2)))"
    using f1 by (simp add: deleteCustomer_def sendSuccess_def)
  have f2: "findById ?s2 i = Some (?f2 (?f1 c))"
    using f1 oidc by (simp add: findById_def find_update_first)
  have s2: "?s2 = update_first ?P (\<lambda>x. x\<lparr>updatedAt := t2\<rparr>) ?s1"
    by (simp add: update_first_twice)
  have s2': "?s2 = update_first ?P ?f2 store"
    by (simp add: update_first_twice)
  have m1: "map oid ?s1 = map oid store" by (simp add: map_update_first)
  have m2: "map oid ?s2 = map oid store" by (simp add: map_update_first)
  have r1: "filter (\<lambda>x. oid x \<noteq> i) ?s1 = filter (\<lambda>x. oid x \<noteq> i) store"
    by (rule filter_update_first) simp
  have r2: "filter (\<lambda>x. oid x \<noteq> i) ?s2 = filter (\<lambda>x. oid x \<noteq> i) store"
    using filter_update_first[of ?P ?f2 ?s1] r1 by simp
  show "deleteCustomer t1 store i =
        (update_first (\<lambda>x. oid x = i) (\<lambda>x. x\<lparr>status := ''inactive'', updatedAt := t1\<rparr>) store,
         Sent (Reply 200 (SuccessBody [Lit ''Customer deactivated successfully''] VNull t1)))"
    by (rule d1)
  show "deleteCustomer t2 (fst (deleteCustomer t1 store i)) i =
        (update_first (\<lambda>x. oid x = i) (\<lambda>x. x\<lparr>updatedAt := t2\<rparr>) (fst (deleteCustomer t1 store i)),
         Sent (Reply 200 (SuccessBody [Lit ''Customer deactivated successfully''] VNull t2)))"
    unfolding s1 d2' s2 ..
  show "fst (deleteCustomer t2 (fst (deleteCustomer t1 store i)) i) =
        update_first (\<lambda>x. oid x = i) (\<lambda>x. x\<lparr>status := ''inactive'', updatedAt := t2\<rparr>) store"
    unfolding s1 d2' fst_conv by (rule s2')
  show "findById (fst (deleteCustomer t1 store i)) i =
        Some (c\<lparr>status := ''inactive'', updatedAt := t1\<rparr>)"
    unfolding s1 by (rule f1)
  show "findById (fst (deleteCustomer t2 (fst (deleteCustomer t1 store i)) i)) i =
        Some (c\<lparr>status := ''inactive'', updatedAt := t2\<rparr>)"
    unfolding s1 d2' fst_conv using f2 by simp
  show "map oid (fst (deleteCustomer t1 store i)) = map oid store"
    unfolding s1 by (rule m1)
  show "map oid (fst (deleteCustomer t2 (fst (deleteCustomer t1 store i)) i)) = map oid store"
    unfolding s1 d2' fst_conv by (rule m2)
  show "filter (\<lambda>x. oid x \<noteq> i) (fst (deleteCustomer t1 store i)) =
        filter (\<lambda>x. oid x \<noteq> i) store"
    unfolding s1 by (rule r1)
  show "filter (\<lambda>x. oid x \<noteq> i) (fst (deleteCustomer t2 (fst (deleteCustomer t1 store i)) i)) =
        filter (\<lambda>x. oid x \<noteq> i) store"
    unfolding s1 d2' fst_conv by (rule r2)
qed

text \<open>
  The theorem for Ana, stored after Luis: deleted on 4 November 2026 and again on
  5 November, and an id that is not stored.
\<close>

theorem deleteCustomer_idempotent_witness:
  "deleteCustomer sample_later [luis, ana] ''64b7f0a1c2d3e4f5a6b7c8d9'' =
     ([luis, ana\<lparr>status := ''inactive'', updatedAt := sample_later\<rparr>],
      Sent (Reply 200 (SuccessBody [Lit ''Customer deactivated successfully''] VNull sample_later)))
   \<and> deleteCustomer \<lparr>getFullYear = 2026, getMonth = 10, getDate = 5, getTimeOfDay = 0\<rparr>
        [luis, ana\<lparr>status := ''inactive'', updatedAt := sample_later\<rparr>]
        ''64b7f0a1c2d3e4f5a6b7c8d9'' =
     ([luis, ana\<lparr>status := ''inactive'',
                 updatedAt := \<lparr>getFullYear = 2026, getMonth = 10, getDate = 5, getTimeOfDay = 0\<rparr>\<rparr>],
      Sent (Reply 200 (SuccessBody [Lit ''Customer deactivated successfully''] VNull
              \<lparr>getFullYear = 2026, getMonth = 10, getDate = 5, getTimeOfDay = 0\<rparr>)))
   \<and> deleteCustomer sample_later [luis, ana] ''ffffffffffffffffffffffff'' =
     ([luis, ana],
      Next (App \<lparr>err_message = [Lit ''Customer not found''], statusCode = 404,
                 err_status = ''fail'', isOperational = True\<rparr>))"
proof -
  let ?i = "''64b7f0a1c2d3e4f5a6b7c8d9''"
  let ?t2 = "\<lparr>getFullYear = 2026, getMonth = 10, getDate = 5, getTimeOfDay = 0\<rparr>"
  have oa: "oid ana = ?i" by (simp add: ana_def)
  have ol: "oid luis \<noteq> ?i" by (simp add: luis_def)
  have found: "findById [luis, ana] ?i = Some ana"
    by (simp add: findById_def oa ol)
  have absent: "findById [luis, ana] ''ffffffffffffffffffffffff'' = None"
    by (simp add: findById_def ana_def luis_def)
  have u1: "update_first (\<lambda>x. oid x = ?i) f [luis, ana] = [luis, f ana]" for f
    by (simp add: oa ol)
  have u2: "update_first (\<lambda>x. oid x = ?i) f [luis, ana\<lparr>status := ''inactive'', updatedAt := sample_later\<rparr>]
       = [luis, f (ana\<lparr>status := ''inactive'', updatedAt := sample_later\<rparr>)]" for f
    by (simp add: oa ol)
  note t = deleteCustomer_idempotent[of "[luis, ana]" ?i sample_later ?t2,
         THEN conjunct1, rule_format, OF found]
  have d1: "deleteCustomer sample_later [luis, ana] ?i =
     ([luis, ana\<lparr>status := ''inactive'', updatedAt := sample_later\<rparr>],
      Sent (Reply 200 (SuccessBody [Lit ''Customer deactivated successfully''] VNull sample_later)))"
    using t[THEN conjunct1] unfolding u1 .
  have s1: "fst (deleteCustomer sample_later [luis, ana] ?i) =
      [luis, ana\<lparr>status := ''inactive'', updatedAt := sample_later\<rparr>]"
    unfolding d1 fst_conv ..
  have d2: "deleteCustomer ?t2 [luis, ana\<lparr>status := ''inactive'', updatedAt := sample_later\<rparr>] ?i =
     ([luis, ana\<lparr>status := ''inactive'', updatedAt := ?t2\<rparr>],
      Sent (Reply 200 (SuccessBody [Lit ''Customer deactivated successfully''] VNull ?t2)))"
    using t[THEN conjunct2, THEN conjunct1] unfolding s1 u2 by simp
  have gone: "deleteCustomer sample_later [luis, ana] ''ffffffffffffffffffffffff'' =
     ([luis, ana],
      Next (App \<lparr>err_message = [Lit ''Customer not found''], statusCode = 404,
                 err_status = ''fail'', isOperational = True\<rparr>))"
    by (rule deleteCustomer_idempotent
        [of "[luis, ana]" "''ffffffffffffffffffffffff''" sample_later ?t2,
         THEN conjunct2, rule_format, OF absent])
  show ?thesis
    by (intro conjI d1 d2 gone)
qed

subsection \<open>Which conflict a registration reports\<close>

text \<open>
  C9, amended. When a registration collides with stored records, the conflict reported is
  decided by the first record, in the order the store returns them, that has the email or
  the national id of the input: the email conflict when that record has the input's email
  (so always when one record owns both), the national-id conflict otherwise. Nothing is
  stored and no compliance check is scheduled.
\<close>

theorem createCustomer_conflict_order:
  assumes "find (\<lambda>c. email c = cd_email d \<or> nationalId c = cd_nationalId d) store = Some e"
  shows "createCustomer now newId store d =
     (store,
      Next (App (newAppError
        (if email e = cd_email d then [Lit ''Email address is already registered'']
         else [Lit ''National ID is already registered'']) 409)),
      None)"
proof -
  have "email e = cd_email d \<or> nationalId e = cd_nationalId d"
    using find_Some_holds[OF assms] by simp
  then show ?thesis
    unfolding createCustomer_def assms by auto
qed

text \<open>The theorem at a second registration of Ana herself: her record owns both fields.\<close>

theorem createCustomer_conflict_order_witness:
  "createCustomer sample_later ''64b7f0a1c2d3e4f5a6b7c8db'' [ana, luis] ana_data =
     ([ana, luis],
      Next (App (newAppError [Lit ''Email address is already registered''] 409)), None)"
  using createCustomer_conflict_order
    [of ana_data "[ana, luis]" ana sample_later "''64b7f0a1c2d3e4f5a6b7c8db''"]
  by (simp add: ana_def luis_def ana_data_def)

text \<open>
  C9 as stated fails: the input has the email of Luis and the national id of Ana, both are
  stored, Ana's record comes first, and the national-id conflict is reported.
\<close>

theorem createCustomer_reports_national_id_first:
  "createCustomer sample_later ''64b7f0a1c2d3e4f5a6b7c8db'' [ana, luis]
     (ana_data\<lparr>cd_email := ''luis@x.com''\<rparr>) =
     ([ana, luis],
      Next (App (newAppError [Lit ''National ID is already registered''] 409)), None)
   \<and> email luis = ''luis@x.com'' \<and> nationalId ana = ''12345678''"
  by (simp add: createCustomer_def ana_def luis_def ana_data_def)

subsection \<open>Search and pagination\<close>

lemma sorted_createdAt_desc:
  "sorted_wrt (\<lambda>a b. getTime (createdAt b) \<le> getTime (createdAt a)) (sort_createdAt_desc cs)"
proof -
  have "sorted (map (\<lambda>c. getTime (createdAt c)) (sort_key (\<lambda>c. getTime (createdAt c)) cs))"
    by (rule sorted_sort_key)
  then have "sorted_wrt (\<lambda>a b. getTime (createdAt a) \<le> getTime (createdAt b))
      (sort_key (\<lambda>c. getTime (createdAt c)) cs)"
    by (simp only: sorted_map)
  then show ?thesis
    unfolding sort_createdAt_desc_def by (simp only: sorted_wrt_rev)
qed

lemma set_sort_createdAt_desc: "set (sort_createdAt_desc cs) = set cs"
  by (simp add: sort_createdAt_desc_def)

lemma length_sort_createdAt_desc: "length (sort_createdAt_desc cs) = length cs"
  by (simp add: sort_createdAt_desc_def)

lemma js_ceil_divide:
  "l \<noteq> 0 \<Longrightarrow> js_ceil (js_divide n l) = Finite (of_int \<lceil>real_of_int n / real_of_int l\<rceil>)"
  by (simp add: js_divide_def ceiling_divide_eq_div)

text \<open>
  C6. For a validated query (page and limit at least 1) over \<open>n\<close> matching records, the
  answer holds the records that follow the first \<open>(page - 1) * limit\<close> in descending order
  of creation, at most \<open>limit\<close> of them, without their documents and version key, and the
  pagination is \<open>currentPage = page\<close>, \<open>totalPages = \<lceil>n / limit\<rceil>\<close>, \<open>totalItems = n\<close>,
  \<open>itemsPerPage = limit\<close>, \<open>hasNextPage = (page < \<lceil>n / limit\<rceil>)\<close> and
  \<open>hasPreviousPage = (1 < page)\<close>.
\<close>

theorem searchCustomers_pagination:
  assumes "1 \<le> page vq" and "1 \<le> limit vq"
  shows "(let matching = filter (search_filter regex vq) store;
              n = int (length matching);
              pages = \<lceil>real_of_int n / real_of_int (limit vq)\<rceil>;
              ordered = sort_createdAt_desc matching;
              items = take (nat (limit vq)) (drop (nat ((page vq - 1) * limit vq)) ordered)
          in searchCustomers now regex store vq =
               Sent (Reply 200 (PaginatedBody
                 [Lit ''Retrieved '', Interp (VNum (of_nat (length items))), Lit '' customers'']
                 (map (\<lambda>c. select_without [''documents'', ''__v''] (toObject c)) items)
                 \<lparr>currentPage = page vq, totalPages = Finite (of_int pages), totalItems = n,
                  itemsPerPage = limit vq, hasNextPage = (page vq < pages),
                  hasPreviousPage = (1 < page vq)\<rparr> now))
             \<and> sorted_wrt (\<lambda>a b. getTime (createdAt b) \<le> getTime (createdAt a)) ordered
             \<and> set ordered = set matching \<and> length ordered = length matching)"
proof -
  have skip: "\<not> (page vq - 1) * limit vq < 0"
    using assms by (simp add: not_less)
  have l0: "limit vq \<noteq> 0" using assms by simp
  have lim: "cursor_limit (limit vq) xs = take (nat (limit vq)) xs" for xs :: "ICustomer list"
    using assms by (simp add: cursor_limit_def)
  show ?thesis
    unfolding Let_def searchCustomers_def sendPaginatedResponse_def
    using skip
    by (simp add: lim js_ceil_divide[OF l0] sorted_createdAt_desc set_sort_createdAt_desc
          length_sort_createdAt_desc)
qed

text \<open>
  The theorem at two stored customers, one per page: the second page holds Ana, who was
  registered first.
\<close>

theorem searchCustomers_pagination_witness:
  "\<exists>data. searchCustomers sample_later (\<lambda>p s. False) [ana, luis]
       \<lparr>q = None, q_status = None, q_complianceStatus = None, q_country = None,
        page = 2, limit = 1\<rparr>
     = Sent (Reply 200 (PaginatedBody
         [Lit ''Retrieved '', Interp (VNum 1), Lit '' customers''] data
         \<lparr>currentPage = 2, totalPages = Finite 2, totalItems = 2, itemsPerPage = 1,
          hasNextPage = False, hasPreviousPage = True\<rparr> sample_later))
     \<and> map (\<lambda>v. js_prop v ''email'') data = [VStr ''ana@x.com'']"
  using searchCustomers_pagination [of
       "\<lparr>q = None, q_status = None, q_complianceStatus = None, q_country = None,
        page = 2, limit = 1\<rparr>" "\<lambda>p s. False" "[ana, luis]" sample_later]
  by (simp add: search_filter_def when_given_def sort_createdAt_desc_def ana_def luis_def
        getTime_def sample_today_def sample_later_def
        toObject_def select_without_def opt_field_def)

subsection \<open>The date-of-birth rule\<close>

lemma dateOfBirthSchema_eq:
  "dateOfBirthSchema =
     Schema KDate Required NoDefault [] False [MaxNow, Custom age_rule]
       [(''date.max'', ''Date of birth cannot be in the future''),
        (''any.invalid'', ''Customer must be between 18 and 120 years old''),
        (''any.required'', ''Date of birth is required'')]"
  by (simp add: dateOfBirthSchema_def chain_def Joi_def max_now_def custom_def)

lemma validate_date:
  "validate env strip path (Schema KDate Required NoDefault [] False rs ms) (VDate d) =
     run_rules env ms path rs (VDate d)"
  by (simp add: validate.simps with_only_def then_rules_def Let_def)

lemma age_on_calendar:
  "age_on today d =
     (if (getMonth d, getDate d) \<le> (getMonth today, getDate today)
      then getFullYear today - getFullYear d else getFullYear today - getFullYear d - 1)"
  by (auto simp: age_on_def Let_def)

lemma dateOfBirth_errors:
  "fst (validate env strip path dateOfBirthSchema (VDate d)) =
     (if getTime d \<le> getTime (env_now env) then []
      else [joi_error (schema_messages dateOfBirthSchema) path ''date.max'' (VDate d)]) @
     (if 18 \<le> age_on (env_now env) d \<and> age_on (env_now env) d \<le> 120 then []
      else [joi_error (schema_messages dateOfBirthSchema) path ''any.invalid'' (VDate d)])"
  by (simp add: dateOfBirthSchema_eq validate_date age_rule_def)

lemma age_next_day:
  "age_on today (next_day (years_before 18 today)) < 18"
  by (auto simp: age_on_def next_day_def years_before_def Let_def)

lemma age_exact: "age_on today (years_before 18 today) = 18"
  by (simp add: age_on_def years_before_def)

lemma before_now: "getTime (years_before 18 today) \<le> getTime today"
  by (simp add: getTime_def years_before_def)

subsection \<open>Objects, their keys and their errors\<close>

lemma validate_object:
  assumes "p \<noteq> Forbidden" and "VObj kvs \<notin> set vs"
  shows "validate env strip path (Schema (KObject ks) p d vs only rs ms) (VObj kvs) =
     with_only ms path only (VObj kvs)
       (then_rules env ms path rs
          (collect_object strip ms path (map fst ks) kvs
             (object_children env strip path ks (VObj kvs))))"
  using assms by (simp add: validate.simps object_children_def Let_def)

lemma collect_object_errors:
  "fst (collect_object True ms path declared kvs results) = concat (map (\<lambda>(key, es, r). es) results)"
  by (simp add: collect_object_def)

lemma child_error_in_object:
  assumes "(key, s) \<in> set ks"
    and "e \<in> set (fst (validate env strip (path @ [key]) s (js_prop (VObj kvs) key)))"
  shows "e \<in> set (fst (collect_object strip ms path declared kvs
                          (object_children env strip path ks (VObj kvs))))"
proof -
  let ?r = "validate env strip (path @ [key]) s (js_prop (VObj kvs) key)"
  have "(key, ?r) \<in> set (object_children env strip path ks (VObj kvs))"
    unfolding object_children_def using assms(1) by (auto simp: image_iff intro!: bexI[of _ "(key, s)"])
  then have "fst ?r \<in> set (map (\<lambda>(key, es, r). es) (object_children env strip path ks (VObj kvs)))"
    by (auto simp: image_iff intro!: bexI[of _ "(key, ?r)"] split: prod.splits)
  then have "e \<in> set (concat (map (\<lambda>(key, es, r). es) (object_children env strip path ks (VObj kvs))))"
    using assms(2) unfolding set_concat by blast
  then show ?thesis
    by (simp add: collect_object_def Let_def)
qed

lemma then_rules_errors:
  "e \<in> set (fst parts) \<Longrightarrow> e \<in> set (fst (then_rules env ms path rs parts))"
  by (auto simp: then_rules_def)

lemma with_only_errors:
  "e \<in> set (fst result) \<Longrightarrow> e \<in> set (fst (with_only ms path only v result))"
  by (simp add: with_only_def)

lemma child_error_in_validate:
  assumes "p \<noteq> Forbidden" and "VObj kvs \<notin> set vs" and "(key, s) \<in> set ks"
    and "e \<in> set (fst (validate env strip (path @ [key]) s (js_prop (VObj kvs) key)))"
  shows "e \<in> set (fst (validate env strip path (Schema (KObject ks) p d vs only rs ms) (VObj kvs)))"
  unfolding validate_object[OF assms(1,2)]
  by (intro with_only_errors then_rules_errors child_error_in_object[OF assms(3,4)])

lemma validate_forbidden:
  "v \<noteq> VUndefined \<Longrightarrow>
   validate env strip path (Schema KAny Forbidden d vs only rs ms) v =
     ([joi_error ms path ''any.unknown'' v], v)"
  by (simp add: validate.simps)

lemma updateCustomerSchema_eq:
  "updateCustomerSchema = Schema (KObject
     [(''firstName'', chain (Joi KString) [trim, minimum 2, maximum 50, optional]),
      (''lastName'', chain (Joi KString) [trim, minimum 2, maximum 50, optional]),
      (''email'', chain (Joi KString) [email_rule, lowercase, trim, optional]),
      (''phone'', chain (Joi KString) [trim, pattern phone_pattern, optional]),
      (''address'', chain addressSchema [optional]),
      (''preferences'', chain customerPreferencesSchema [optional]),
      (''passportNumber'', chain (Joi KString)
         [trim, minimum 6, maximum 15, optional, allow [VNull, VStr '''']]),
      (''nationalId'', Schema KAny Forbidden NoDefault [] False []
         [(''any.unknown'', ''National ID cannot be updated directly'')]),
      (''dateOfBirth'', Schema KAny Forbidden NoDefault [] False []
         [(''any.unknown'', ''Date of birth cannot be updated directly'')]),
      (''documents'', Schema KAny Forbidden NoDefault [] False []
         [(''any.unknown'', ''Documents must be updated through dedicated endpoints'')]),
      (''emailVerified'', Schema KAny Forbidden NoDefault [] False [] []),
      (''phoneVerified'', Schema KAny Forbidden NoDefault [] False [] []),
      (''identityVerified'', Schema KAny Forbidden NoDefault [] False [] []),
      (''complianceStatus'', Schema KAny Forbidden NoDefault [] False [] []),
      (''status'', Schema KAny Forbidden NoDefault [] False [] [])])
     Optional NoDefault [] False [Min 1]
     [(''object.min'', ''At least one field must be provided for update'')]"
  by (simp add: updateCustomerSchema_def chain_def Joi_def minimum_def)

subsection \<open>Immutable fields in an update\<close>

lemma forbidden_child:
  assumes "(k, Schema KAny Forbidden NoDefault [] False [] ms) \<in> set ks"
    and "p \<noteq> Forbidden" and "VObj kvs \<notin> set vs"
    and "map_of kvs k = Some v" and "v \<noteq> VUndefined"
  shows "\<exists>e \<in> set (fst (validate env True [] (Schema (KObject ks) p d vs only rs ms')
                         (VObj kvs))).
           field e = k \<and> error_type e = ''any.unknown'' \<and> offending e = v"
proof -
  have v: "js_prop (VObj kvs) k = v" using assms(4) by simp
  have "joi_error ms [k] ''any.unknown'' v
      \<in> set (fst (validate env True ([] @ [k]) (Schema KAny Forbidden NoDefault [] False [] ms)
                    (js_prop (VObj kvs) k)))"
    unfolding v by (simp add: validate_forbidden[OF assms(5)])
  then have "joi_error ms [k] ''any.unknown'' v
      \<in> set (fst (validate env True [] (Schema (KObject ks) p d vs only rs ms') (VObj kvs)))"
    by (rule child_error_in_validate[OF assms(2,3,1)])
  then show ?thesis
    by (intro bexI[of _ "joi_error ms [k] ''any.unknown'' v"]) (simp_all add: joi_error_def)
qed

lemma forbidden_key_error:
  assumes "k \<in> set [''nationalId'', ''dateOfBirth'', ''documents'', ''emailVerified'',
                     ''phoneVerified'', ''identityVerified'', ''complianceStatus'', ''status'']"
    and "map_of kvs k = Some v" and "v \<noteq> VUndefined"
  shows "\<exists>e \<in> set (fst (validate env True [] updateCustomerSchema (VObj kvs))).
           field e = k \<and> error_type e = ''any.unknown'' \<and> offending e = v"
proof -
  from assms(1) have "k = ''nationalId'' \<or> k = ''dateOfBirth'' \<or> k = ''documents'' \<or> k = ''emailVerified'' \<or> k = ''phoneVerified'' \<or> k = ''identityVerified'' \<or> k = ''complianceStatus'' \<or> k = ''status''"
    by simp
  then show ?thesis
  proof (elim disjE)
    assume k: "k = ''nationalId''"
    show ?thesis unfolding updateCustomerSchema_eq k
      by (rule forbidden_child[OF _ _ _ assms(2)[unfolded k] assms(3)]) simp_all
  next
    assume k: "k = ''dateOfBirth''"
    show ?thesis unfolding updateCustomerSchema_eq k
      by (rule forbidden_child[OF _ _ _ assms(2)[unfolded k] assms(3)]) simp_all
  next
    assume k: "k = ''documents''"
    show ?thesis unfolding updateCustomerSchema_eq k
      by (rule forbidden_child[OF _ _ _ assms(2)[unfolded k] assms(3)]) simp_all
  next
    assume k: "k = ''emailVerified''"
    show ?thesis unfolding updateCustomerSchema_eq k
      by (rule forbidden_child[OF _ _ _ assms(2)[unfolded k] assms(3)]) simp_all
  next
    assume k: "k = ''phoneVerified''"
    show ?thesis unfolding updateCustomerSchema_eq k
      by (rule forbidden_child[OF _ _ _ assms(2)[unfolded k] assms(3)]) simp_all
  next
    assume k: "k = ''identityVerified''"
    show ?thesis unfolding updateCustomerSchema_eq k
      by (rule forbidden_child[OF _ _ _ assms(2)[unfolded k] assms(3)]) simp_all
  next
    assume k: "k = ''complianceStatus''"
    show ?thesis unfolding updateCustomerSchema_eq k
      by (rule forbidden_child[OF _ _ _ assms(2)[unfolded k] assms(3)]) simp_all
  next
    assume k: "k = ''status''"
    show ?thesis unfolding updateCustomerSchema_eq k
      by (rule forbidden_child[OF _ _ _ assms(2)[unfolded k] assms(3)]) simp_all
  qed
qed

text \<open>
  C2. An update body that has any of \<^verbatim>\<open>nationalId\<close>, \<^verbatim>\<open>dateOfBirth\<close>, \<^verbatim>\<open>documents\<close>,
  \<^verbatim>\<open>emailVerified\<close>, \<^verbatim>\<open>phoneVerified\<close>, \<^verbatim>\<open>identityVerified\<close>, \<^verbatim>\<open>complianceStatus\<close> or
  \<^verbatim>\<open>status\<close>, whatever its value, is answered by \<^verbatim>\<open>validateRequest\<close> with a 400 that lists
  an \<^verbatim>\<open>any.unknown\<close> error for that field. The stored value plays no part, and the rest of
  the chain, \<open>next\<close>, is not run: the answer does not depend on it.
\<close>

theorem update_rejects_immutable_fields:
  assumes "k \<in> set [''nationalId'', ''dateOfBirth'', ''documents'', ''emailVerified'',
                     ''phoneVerified'', ''identityVerified'', ''complianceStatus'', ''status'']"
    and "map_of kvs k = Some v" and "v \<noteq> VUndefined"
  shows "\<exists>errors. validateRequest env updateCustomerSchema (VObj kvs) next =
            Inl (Reply 400 (FailureBody ''Validation error'' errors))
          \<and> (\<exists>e \<in> set errors. field e = k \<and> error_type e = ''any.unknown'' \<and> offending e = v)"
proof -
  let ?errors = "fst (validate env True [] updateCustomerSchema (VObj kvs))"
  have e: "\<exists>e \<in> set ?errors. field e = k \<and> error_type e = ''any.unknown'' \<and> offending e = v"
    by (rule forbidden_key_error[OF assms])
  then have "?errors \<noteq> []" by auto
  then have "validateRequest env updateCustomerSchema (VObj kvs) next =
      Inl (Reply 400 (FailureBody ''Validation error'' ?errors))"
    by (simp add: validateRequest_def respond_or_next_def)
  with e show ?thesis by blast
qed

text \<open>The theorem at an update that repeats the stored status of Ana.\<close>

theorem update_rejects_immutable_fields_witness:
  "\<exists>errors. validateRequest sample_env updateCustomerSchema
       (VObj [(''firstName'', VStr ''Ana''), (''status'', VStr ''pending_verification'')])
       (\<lambda>v. createCustomer sample_today ''64b7f0a1c2d3e4f5a6b7c8db'' [ana] ana_data) =
     Inl (Reply 400 (FailureBody ''Validation error'' errors))
     \<and> (\<exists>e \<in> set errors. field e = ''status'' \<and> error_type e = ''any.unknown'' \<and>
           offending e = VStr ''pending_verification'')"
proof -
  have k: "''status'' \<in> set [''nationalId'', ''dateOfBirth'', ''documents'', ''emailVerified'',
                     ''phoneVerified'', ''identityVerified'', ''complianceStatus'', ''status'']"
    by simp
  have m: "map_of [(''firstName'', VStr ''Ana''), (''status'', VStr ''pending_verification'')]
             ''status'' = Some (VStr ''pending_verification'')"
    by simp
  show ?thesis
    by (rule update_rejects_immutable_fields[OF k m]) simp
qed

lemma createCustomerSchema_eq:
  "createCustomerSchema = Schema (KObject
     [(''firstName'', chain (Joi KString) [trim, minimum 2, maximum 50, required,
         messages [(''string.empty'', ''First name is required''),
                   (''string.min'', ''First name must be at least 2 characters''),
                   (''string.max'', ''First name must not exceed 50 characters'')]]),
      (''lastName'', chain (Joi KString) [trim, minimum 2, maximum 50, required,
         messages [(''string.empty'', ''Last name is required''),
                   (''string.min'', ''Last name must be at least 2 characters''),
                   (''string.max'', ''Last name must not exceed 50 characters'')]]),
      (''email'', chain (Joi KString) [email_rule, lowercase, trim, required,
         messages [(''string.email'', ''Please provide a valid email address''),
                   (''string.empty'', ''Email is required'')]]),
      (''phone'', chain (Joi KString) [trim, pattern phone_pattern, required,
         messages [(''string.pattern.base'', ''Please provide a valid phone number (10-15 digits)''),
                   (''string.empty'', ''Phone number is required'')]]),
      (''dateOfBirth'', dateOfBirthSchema),
      (''nationalId'', chain (Joi KString) [trim, minimum 8, maximum 20, required,
         messages [(''string.empty'', ''National ID is required''),
                   (''string.min'', ''National ID must be at least 8 characters''),
                   (''string.max'', ''National ID must not exceed 20 characters'')]]),
      (''passportNumber'', chain (Joi KString) [trim, minimum 6, maximum 15, optional,
         messages [(''string.min'', ''Passport number must be at least 6 characters''),
                   (''string.max'', ''Passport number must not exceed 15 characters'')]]),
      (''address'', chain addressSchema [required]),
      (''documents'', chain (Joi (KArray kycDocumentSchema))
         [optional, default_to (Default (VArr []))]),
      (''preferences'', chain customerPreferencesSchema
         [optional, default_to (Default (VObj []))])])
     Optional NoDefault [] False [] []"
  by (simp add: createCustomerSchema_def Joi_def)

lemma validate_date_string:
  "env_toDate env (VStr s) = Some d \<Longrightarrow>
   validate env strip path dateOfBirthSchema (VStr s) =
   validate env strip path dateOfBirthSchema (VDate d)"
  by (simp add: dateOfBirthSchema_eq validate.simps)

text \<open>
  The rule on a \<^verbatim>\<open>Date\<close>, in the fields the host's clock gives it. The age the rule
  computes is the difference of the years, less one when the month and day of birth come
  later in the year than the month and day of validation. A date of birth is valid
  exactly when it is not after the instant of validation and that age is from 18 to 120.
  So the date exactly 18 years before the validation passes, the day after it fails,
  every later instant fails, and an age above 120 fails. A string is validated as the
  date the runtime reads it as, and a failing date of birth fails the whole create
  request with a 400.
\<close>

theorem dateOfBirth_on_dates:
  "age_on (env_now env) d =
     (if (getMonth d, getDate d) \<le> (getMonth (env_now env), getDate (env_now env))
      then getFullYear (env_now env) - getFullYear d
      else getFullYear (env_now env) - getFullYear d - 1)
   \<and> (fst (validate env strip path dateOfBirthSchema (VDate d)) = [] \<longleftrightarrow>
        getTime d \<le> getTime (env_now env) \<and> 18 \<le> age_on (env_now env) d \<and>
        age_on (env_now env) d \<le> 120)
   \<and> validate env strip path dateOfBirthSchema (VDate (years_before 18 (env_now env))) =
        ([], VDate (years_before 18 (env_now env)))
   \<and> fst (validate env strip path dateOfBirthSchema
             (VDate (next_day (years_before 18 (env_now env))))) \<noteq> []
   \<and> (getTime (env_now env) < getTime d \<longrightarrow>
        fst (validate env strip path dateOfBirthSchema (VDate d)) \<noteq> [])
   \<and> (120 < age_on (env_now env) d \<longrightarrow>
        fst (validate env strip path dateOfBirthSchema (VDate d)) \<noteq> [])
   \<and> (\<forall>s. env_toDate env (VStr s) = Some d \<longrightarrow>
        validate env strip path dateOfBirthSchema (VStr s) =
        validate env strip path dateOfBirthSchema (VDate d))
   \<and> (\<forall>kvs. map_of kvs ''dateOfBirth'' = Some (VDate d) \<and>
          fst (validate env True [''dateOfBirth''] dateOfBirthSchema (VDate d)) \<noteq> [] \<longrightarrow>
        (\<exists>errors. validateRequest env createCustomerSchema (VObj kvs) next =
           Inl (Reply 400 (FailureBody ''Validation error'' errors))))"
proof (intro conjI allI impI)
  show "age_on (env_now env) d =
     (if (getMonth d, getDate d) \<le> (getMonth (env_now env), getDate (env_now env))
      then getFullYear (env_now env) - getFullYear d
      else getFullYear (env_now env) - getFullYear d - 1)"
    by (rule age_on_calendar)
  show "fst (validate env strip path dateOfBirthSchema (VDate d)) = [] \<longleftrightarrow>
        getTime d \<le> getTime (env_now env) \<and> 18 \<le> age_on (env_now env) d \<and>
        age_on (env_now env) d \<le> 120"
    by (simp add: dateOfBirth_errors)
  show "validate env strip path dateOfBirthSchema (VDate (years_before 18 (env_now env))) =
        ([], VDate (years_before 18 (env_now env)))"
    by (simp add: dateOfBirthSchema_eq validate_date age_rule_def age_exact before_now)
  show "fst (validate env strip path dateOfBirthSchema
             (VDate (next_day (years_before 18 (env_now env))))) \<noteq> []"
    using age_next_day[of "env_now env"] by (simp add: dateOfBirth_errors)
  show "fst (validate env strip path dateOfBirthSchema (VDate d)) \<noteq> []"
    if "getTime (env_now env) < getTime d"
    using that by (simp add: dateOfBirth_errors not_le)
  show "fst (validate env strip path dateOfBirthSchema (VDate d)) \<noteq> []"
    if "120 < age_on (env_now env) d"
    using that by (simp add: dateOfBirth_errors)
  show "validate env strip path dateOfBirthSchema (VStr s) =
        validate env strip path dateOfBirthSchema (VDate d)"
    if "env_toDate env (VStr s) = Some d" for s
    using that by (rule validate_date_string)
  show "\<exists>errors. validateRequest env createCustomerSchema (VObj kvs) next =
           Inl (Reply 400 (FailureBody ''Validation error'' errors))"
    if h: "map_of kvs ''dateOfBirth'' = Some (VDate d) \<and>
          fst (validate env True [''dateOfBirth''] dateOfBirthSchema (VDate d)) \<noteq> []" for kvs
  proof -
    from h obtain e where
      e: "e \<in> set (fst (validate env True ([] @ [''dateOfBirth'']) dateOfBirthSchema
                          (js_prop (VObj kvs) ''dateOfBirth'')))"
      by (cases "fst (validate env True [''dateOfBirth''] dateOfBirthSchema (VDate d))") auto
    have "e \<in> set (fst (validate env True [] createCustomerSchema (VObj kvs)))"
      unfolding createCustomerSchema_eq
      by (rule child_error_in_validate[OF _ _ _ e]) simp_all
    then have "fst (validate env True [] createCustomerSchema (VObj kvs)) \<noteq> []" by auto
    then show ?thesis
      by (simp add: validateRequest_def respond_or_next_def)
  qed
qed

text \<open>
  On 3 November 2026: born 3 November 2008 passes, 4 November 2008 fails,
  4 November 2026 fails, and 3 November 1905 (121 years) fails.
\<close>

theorem dateOfBirth_on_dates_example:
  "fst (validate sample_env True [''dateOfBirth''] dateOfBirthSchema
         (VDate \<lparr>getFullYear = 2008, getMonth = 10, getDate = 3, getTimeOfDay = 0\<rparr>)) = []
   \<and> fst (validate sample_env True [''dateOfBirth''] dateOfBirthSchema
         (VDate \<lparr>getFullYear = 2008, getMonth = 10, getDate = 4, getTimeOfDay = 0\<rparr>)) \<noteq> []
   \<and> fst (validate sample_env True [''dateOfBirth''] dateOfBirthSchema
         (VDate \<lparr>getFullYear = 2026, getMonth = 10, getDate = 4, getTimeOfDay = 0\<rparr>)) \<noteq> []
   \<and> fst (validate sample_env True [''dateOfBirth''] dateOfBirthSchema
         (VDate \<lparr>getFullYear = 1905, getMonth = 10, getDate = 3, getTimeOfDay = 0\<rparr>)) \<noteq> []"
proof -
  have rule: "fst (validate sample_env True [''dateOfBirth''] dateOfBirthSchema (VDate d)) = [] \<longleftrightarrow>
        getTime d \<le> getTime (env_now sample_env) \<and> 18 \<le> age_on (env_now sample_env) d \<and>
        age_on (env_now sample_env) d \<le> 120" for d
    by (rule conjunct1[OF conjunct2[OF dateOfBirth_on_dates]])
  show ?thesis
    unfolding rule by (simp add: age_on_def getTime_def sample_env_def sample_today_def)
qed

subsection \<open>The date of birth a request carries\<close>

text \<open>
  C3. A request writes the date of birth as \<^verbatim>\<open>YYYY-MM-DD\<close>, which is read as midnight UTC
  and then compared in the fields of the host's clock. On a host in Bogota, at noon of
  3 November 2026, a registration with the date of birth \<^verbatim>\<open>2008-11-04\<close>, one day short of
  18 years, passes validation: the handler is given the customer's data with the date of
  birth 3 November 2008, 19:00. The age of someone born on 4 November 2008 is 17 on that
  day, and a host on UTC answers the same request with a 400 for the date of birth.
\<close>

theorem dateOfBirth_day_short_west_of_UTC:
  "validateRequest bogota_env createCustomerSchema (VObj minor_fields) decodeCustomerData =
     Inr (Some (ana_data\<lparr>cd_dateOfBirth :=
       \<lparr>getFullYear = 2008, getMonth = 10, getDate = 3, getTimeOfDay = 68400000\<rparr>\<rparr>))
   \<and> env_now bogota_env =
     \<lparr>getFullYear = 2026, getMonth = 10, getDate = 3, getTimeOfDay = 43200000\<rparr>
   \<and> age_on (env_now bogota_env)
       \<lparr>getFullYear = 2008, getMonth = 10, getDate = 4, getTimeOfDay = 0\<rparr> = 17
   \<and> validateRequest sample_env createCustomerSchema (VObj minor_fields) decodeCustomerData =
     Inl (Reply 400 (FailureBody ''Validation error''
       [\<lparr>field = ''dateOfBirth'', error_type = ''any.invalid'',
         custom_message = Some ''Customer must be between 18 and 120 years old'',
         offending = VDate \<lparr>getFullYear = 2008, getMonth = 10, getDate = 4,
                             getTimeOfDay = 0\<rparr>\<rparr>]))"
  by code_simp

subsection \<open>Fields no schema declares\<close>

lemma map_of_filter_declared:
  "k \<in> D \<Longrightarrow> map_of (filter (\<lambda>(key, x). key \<in> D) kvs) k = map_of kvs k"
  by (induction kvs) auto

lemma object_children_filter:
  "object_children env strip path ks (VObj (filter (\<lambda>(key, x). key \<in> set (map fst ks)) kvs)) =
   object_children env strip path ks (VObj kvs)"
  unfolding object_children_def
proof (rule map_cong[OF refl])
  fix e assume e: "e \<in> set ks"
  obtain key s where ks: "e = (key, s)" by (cases e)
  have "key \<in> set (map fst ks)" using e ks by force
  then have "map_of (filter (\<lambda>(key, x). key \<in> set (map fst ks)) kvs) key = map_of kvs key"
    by (rule map_of_filter_declared)
  then show "(case e of (key, s) \<Rightarrow>
        (key, validate env strip (path @ [key]) s
           (js_prop (VObj (filter (\<lambda>(key, x). key \<in> set (map fst ks)) kvs)) key))) =
      (case e of (key, s) \<Rightarrow> (key, validate env strip (path @ [key]) s (js_prop (VObj kvs) key)))"
    unfolding ks by (simp del: set_map)
qed

lemma collect_object_strip:
  "collect_object True ms path declared kvs results =
   collect_object True ms path declared kvs' results"
  by (simp add: collect_object_def)

lemma validate_strips_unknown:
  assumes "p \<noteq> Forbidden"
  shows "validate env True path (Schema (KObject ks) p d [] False rs ms) (VObj kvs) =
         validate env True path (Schema (KObject ks) p d [] False rs ms)
           (VObj (filter (\<lambda>(key, x). key \<in> set (map fst ks)) kvs))"
proof -
  let ?kvs' = "filter (\<lambda>(key, x). key \<in> set (map fst ks)) kvs"
  have w: "with_only ms path False v r = r" for v r
    by (simp add: with_only_def)
  have 1: "validate env True path (Schema (KObject ks) p d [] False rs ms) (VObj kvs) =
      then_rules env ms path rs
        (collect_object True ms path (map fst ks) kvs (object_children env True path ks (VObj kvs)))"
    using assms by (simp only: validate_object w list.set empty_iff not_False_eq_True)
  have 2: "validate env True path (Schema (KObject ks) p d [] False rs ms) (VObj ?kvs') =
      then_rules env ms path rs
        (collect_object True ms path (map fst ks) ?kvs'
           (object_children env True path ks (VObj ?kvs')))"
    using assms by (simp only: validate_object w list.set empty_iff not_False_eq_True)
  show ?thesis
    unfolding 1 2 object_children_filter
    by (simp only: collect_object_strip[of ms path "map fst ks" ?kvs' _ kvs])
qed

lemma collect_object_keys:
  "\<exists>out. snd (collect_object True ms path declared kvs (object_children env strip path ks v)) =
           VObj out \<and> set (map fst out) \<subseteq> set (map fst ks)"
  by (force simp: collect_object_def object_children_def split: if_splits)

lemma run_rules_min_value: "snd (run_rules env ms path [Min n] (VObj out)) = VObj out"
  by simp

lemma validated_keys:
  assumes "p \<noteq> Forbidden" and "rs = [] \<or> rs = [Min n]"
  shows "\<exists>out. snd (validate env True path (Schema (KObject ks) p d [] False rs ms) (VObj kvs)) =
           VObj out \<and> set (map fst out) \<subseteq> set (map fst ks)"
proof -
  obtain out where out:
    "snd (collect_object True ms path (map fst ks) kvs
            (object_children env True path ks (VObj kvs))) = VObj out"
    "set (map fst out) \<subseteq> set (map fst ks)"
    using collect_object_keys by blast
  have "snd (validate env True path (Schema (KObject ks) p d [] False rs ms) (VObj kvs)) = VObj out"
    using assms out(1)
    by (auto simp: validate_object with_only_def then_rules_def split: prod.splits sum.splits)
  with out(2) show ?thesis by blast
qed

lemma coerce_object: "coerce env (KObject ks) rs v = v"
  by (cases v) simp_all

lemma coerce_array: "coerce env (KArray s) rs v = v"
  by (cases v) simp_all

lemma strip_unknown_scalar:
  "\<forall>ks. schema_kind s \<noteq> KObject ks \<Longrightarrow> \<forall>s'. schema_kind s \<noteq> KArray s' \<Longrightarrow>
   strip_unknown s v = v"
  by (cases v; cases "schema_kind s"; simp)

lemma strip_unknown_undefined: "strip_unknown s x = VUndefined \<longleftrightarrow> x = VUndefined"
  by (cases x) (auto split: kind.splits)

lemma map_of_filter_map:
  "key \<in> D \<Longrightarrow>
   map_of (filter (\<lambda>(k, x). k \<in> D) (map (\<lambda>(k, x). (k, h k x)) kvs)) key =
   map_option (h key) (map_of kvs key)"
  by (induction kvs) auto

lemma js_prop_strip_unknown:
  assumes "distinct (map fst ks)" and "(key, s') \<in> set ks"
  shows "js_prop (strip_unknown (Schema (KObject ks) p d vs only rs ms) (VObj kvs)) key =
         strip_unknown s' (js_prop (VObj kvs) key)"
proof -
  have m: "map_of ks key = Some s'"
    using assms by (rule map_of_is_SomeI)
  have k: "key \<in> set (map fst ks)"
    using assms(2) by force
  show ?thesis
    using m by (simp add: map_of_filter_map[OF k] split: option.splits del: set_map)
qed

lemma concat_map_agree:
  assumes "\<And>e. e \<in> set xs \<Longrightarrow> f e = g e"
  shows "concat (map f xs) = concat (map g xs)"
  using assms by (induction xs) auto

lemma concat_map_nil: "concat (map f xs) = [] \<Longrightarrow> e \<in> set xs \<Longrightarrow> f e = []"
  by (induction xs) auto

lemma validate_array:
  assumes "p \<noteq> Forbidden"
  shows "validate env strip path (Schema (KArray s) p d [] False rs ms) (VArr xs) =
     then_rules env ms path rs
       (collect_array ms path
          (map (\<lambda>(i, x). (i, x, validate env strip (path @ [show_nat i]) s x))
             (zip [0..<length xs] xs)))"
  using assms by (simp add: validate.simps with_only_def Let_def)

lemma collect_array_errors:
  "fst (collect_array ms path (map (\<lambda>(i, x). (i, x, V i x)) (map (\<lambda>(i, x). (i, g x)) Z))) =
   concat (map (\<lambda>(i, x). if g x = VUndefined
        then [joi_error ms (path @ [show_nat i]) ''array.sparse'' (g x)]
        else fst (V i (g x))) Z)"
  by (induction Z) (auto simp: collect_array_def split: prod.splits)

lemma collect_array_value:
  "snd (collect_array ms path (map (\<lambda>(i, x). (i, x, V i x)) (map (\<lambda>(i, x). (i, g x)) Z))) =
   VArr (map (\<lambda>(i, x). if g x \<noteq> VUndefined \<and> fst (V i (g x)) = [] then snd (V i (g x)) else g x) Z)"
  by (induction Z) (auto simp: collect_array_def split: prod.splits)

lemma map_pair_id: "map (\<lambda>(i, x). (i, x)) Z = Z"
  by (induction Z) auto

lemma validate_object_plain:
  assumes "p \<noteq> Forbidden"
  shows "validate env True path (Schema (KObject ks) p d [] False rs ms) (VObj kvs) =
     then_rules env ms path rs
       (collect_object True ms path (map fst ks) kvs
          (object_children env True path ks (VObj kvs)))"
  using assms by (simp add: validate_object with_only_def)

lemma validate_strip_unknown:
  "plain s \<Longrightarrow>
   fst (validate env True path s v) = fst (validate env True path s (strip_unknown s v)) \<and>
   (fst (validate env True path s v) = [] \<longrightarrow>
      snd (validate env True path s v) = snd (validate env True path s (strip_unknown s v)))"
proof (induction s v arbitrary: path rule: strip_unknown.induct)
  case (1 s kvs)
  obtain k p d vs only rs ms where s: "s = Schema k p d vs only rs ms" by (cases s)
  show ?case
  proof (cases "\<exists>ks. k = KObject ks")
    case False
    then have "strip_unknown s (VObj kvs) = VObj kvs"
      unfolding s by (cases k) simp_all
    then show ?thesis by simp
  next
    case True
    then obtain ks where k: "k = KObject ks" by blast
    from "1.prems" have p: "p \<noteq> Forbidden" and vs: "vs = []" and only: "\<not> only"
      and dist: "distinct (map fst ks)" and pl: "\<And>key s'. (key, s') \<in> set ks \<Longrightarrow> plain s'"
      unfolding s k by (auto simp: list_all_iff)
    let ?S = "Schema (KObject ks) p d [] False rs ms"
    have sS: "s = ?S" using s k vs only by simp
    obtain kvs' where kvs': "strip_unknown ?S (VObj kvs) = VObj kvs'"
      by simp
    let ?F = "\<lambda>(key, s'). validate env True (path @ [key]) s' (js_prop (VObj kvs) key)"
    let ?G = "\<lambda>(key, s'). validate env True (path @ [key]) s' (js_prop (VObj kvs') key)"
    have child: "fst (?F e) = fst (?G e) \<and> (fst (?F e) = [] \<longrightarrow> snd (?F e) = snd (?G e))"
      if e: "e \<in> set ks" for e
    proof -
      obtain key s' where ks: "e = (key, s')" by (cases e)
      have in_ks: "(key, s') \<in> set ks" using e ks by simp
      have m: "map_of ks key = Some s'" using dist in_ks by (rule map_of_is_SomeI)
      have j: "js_prop (VObj kvs') key = strip_unknown s' (js_prop (VObj kvs) key)"
        using js_prop_strip_unknown[OF dist in_ks, of p d "[]" False rs ms kvs] unfolding kvs' .
      show ?thesis
      proof (cases "map_of kvs key")
        case None
        then have u: "js_prop (VObj kvs) key = VUndefined" by simp
        show ?thesis unfolding ks prod.case j u by simp
      next
        case (Some x)
        then have x: "(key, x) \<in> set kvs" by (rule map_of_SomeD)
        have jx: "js_prop (VObj kvs) key = x" using Some by simp
        have sk: "schema_kind s = KObject ks" unfolding sS by simp
        show ?thesis
          unfolding ks j jx prod.case
          by (rule "1.IH"[OF sk x refl m pl[OF in_ks]])
      qed
    qed
    let ?R = "object_children env True path ks (VObj kvs)"
    let ?R' = "object_children env True path ks (VObj kvs')"
    have R: "?R = map (\<lambda>e. (fst e, ?F e)) ks"
      unfolding object_children_def by (rule map_cong[OF refl]) (simp add: split_beta)
    have R': "?R' = map (\<lambda>e. (fst e, ?G e)) ks"
      unfolding object_children_def by (rule map_cong[OF refl]) (simp add: split_beta)
    let ?C = "collect_object True ms path (map fst ks) kvs ?R"
    let ?C' = "collect_object True ms path (map fst ks) kvs' ?R'"
    have eC: "fst ?C = concat (map (\<lambda>e. fst (?F e)) ks)"
      unfolding collect_object_errors R by (simp add: comp_def split_beta)
    have eC': "fst ?C' = concat (map (\<lambda>e. fst (?G e)) ks)"
      unfolding collect_object_errors R' by (simp add: comp_def split_beta)
    have errs: "fst ?C = fst ?C'"
      unfolding eC eC' by (rule concat_map_agree) (use child in blast)
    have vals: "?C = ?C'" if none: "fst ?C = []"
    proof -
      have "?F e = ?G e" if e: "e \<in> set ks" for e
      proof -
        have "fst (?F e) = []"
          using concat_map_nil[OF none[unfolded eC] e] .
        then show ?thesis
          using child[OF e] by (simp add: prod_eq_iff)
      qed
      then have "?R = ?R'"
        unfolding R R' by (intro map_cong[OF refl]) simp
      then show ?thesis
        by (simp only: collect_object_strip[of ms path "map fst ks" kvs _ kvs'])
    qed
    have V: "validate env True path s (VObj kvs) = then_rules env ms path rs ?C"
      unfolding sS by (rule validate_object_plain[OF p])
    have V': "validate env True path s (strip_unknown s (VObj kvs)) = then_rules env ms path rs ?C'"
      unfolding sS kvs' by (rule validate_object_plain[OF p])
    show ?thesis
    proof (cases "fst ?C = []")
      case True
      then show ?thesis unfolding V V' using vals by simp
    next
      case False
      then show ?thesis unfolding V V' using errs by (simp add: then_rules_def)
    qed
  qed
next
  case (2 s xs)
  obtain k p d vs only rs ms where s: "s = Schema k p d vs only rs ms" by (cases s)
  show ?case
  proof (cases "\<exists>s'. k = KArray s'")
    case False
    then have "strip_unknown s (VArr xs) = VArr xs"
      unfolding s by (cases k) simp_all
    then show ?thesis by simp
  next
    case True
    then obtain s' where k: "k = KArray s'" by blast
    from "2.prems" have p: "p \<noteq> Forbidden" and vs: "vs = []" and only: "\<not> only"
      and rs: "rs = []" and pl: "plain s'"
      unfolding s k by auto
    let ?S = "Schema (KArray s') p d [] False [] ms"
    have sS: "s = ?S" using s k vs only rs by simp
    have sk: "schema_kind s = KArray s'" unfolding sS by simp
    let ?Z = "zip [0..<length xs] xs"
    let ?V = "\<lambda>i x. validate env True (path @ [show_nat i]) s' x"
    have st: "strip_unknown s (VArr xs) = VArr (map (strip_unknown s') xs)"
      unfolding sS by simp
    have Z': "zip [0..<length (map (strip_unknown s') xs)] (map (strip_unknown s') xs) =
        map (\<lambda>(i, x). (i, strip_unknown s' x)) ?Z"
      by (simp add: zip_map2)
    let ?A = "collect_array ms path (map (\<lambda>(i, x). (i, x, ?V i x)) ?Z)"
    let ?A' = "collect_array ms path
        (map (\<lambda>(i, x). (i, x, ?V i x)) (map (\<lambda>(i, x). (i, strip_unknown s' x)) ?Z))"
    have item: "fst (?V i x) = fst (?V i (strip_unknown s' x)) \<and>
        (fst (?V i x) = [] \<longrightarrow> snd (?V i x) = snd (?V i (strip_unknown s' x)))"
      if "(i, x) \<in> set ?Z" for i x
    proof -
      have "x \<in> set xs" using that by (rule set_zip_rightD)
      then show ?thesis by (rule "2.IH"[OF sk _ pl])
    qed
    let ?e = "\<lambda>(i, x). if x = VUndefined
        then [joi_error ms (path @ [show_nat i]) ''array.sparse'' x] else fst (?V i x)"
    let ?e' = "\<lambda>(i, x). if strip_unknown s' x = VUndefined
        then [joi_error ms (path @ [show_nat i]) ''array.sparse'' (strip_unknown s' x)]
        else fst (?V i (strip_unknown s' x))"
    have eA: "fst ?A = concat (map ?e ?Z)"
      using collect_array_errors[of ms path ?V "\<lambda>x. x" ?Z] by (simp only: map_pair_id)
    have eA': "fst ?A' = concat (map ?e' ?Z)"
      by (rule collect_array_errors)
    have pointwise: "?e z = ?e' z" if "z \<in> set ?Z" for z
    proof -
      obtain i x where z: "z = (i, x)" by (cases z)
      show ?thesis
        unfolding z using item[of i x] that[unfolded z]
        by (simp add: strip_unknown_undefined)
    qed
    have errs: "fst ?A = fst ?A'"
      unfolding eA eA' by (rule concat_map_agree) (rule pointwise)
    let ?w = "\<lambda>(i, x). if x \<noteq> VUndefined \<and> fst (?V i x) = [] then snd (?V i x) else x"
    let ?w' = "\<lambda>(i, x). if strip_unknown s' x \<noteq> VUndefined \<and> fst (?V i (strip_unknown s' x)) = []
           then snd (?V i (strip_unknown s' x)) else strip_unknown s' x"
    have vA: "snd ?A = VArr (map ?w ?Z)"
      using collect_array_value[of ms path ?V "\<lambda>x. x" ?Z] by (simp only: map_pair_id)
    have vA': "snd ?A' = VArr (map ?w' ?Z)"
      by (rule collect_array_value)
    have vals: "snd ?A = snd ?A'" if none: "fst ?A = []"
    proof -
      have each: "?w z = ?w' z" if zin: "z \<in> set ?Z" for z
      proof -
        obtain i x where z: "z = (i, x)" by (cases z)
        have "?e (i, x) = []"
          using concat_map_nil[OF none[unfolded eA] zin[unfolded z]] .
        then have "x \<noteq> VUndefined" and "fst (?V i x) = []"
          by (auto split: if_splits)
        then show ?thesis
          unfolding z using item[OF zin[unfolded z]] by (simp add: strip_unknown_undefined)
      qed
      show ?thesis
        unfolding vA vA' using each by simp
    qed
    have V: "validate env True path s (VArr xs) = then_rules env ms path [] ?A"
      unfolding sS by (rule validate_array[OF p])
    have V': "validate env True path s (strip_unknown s (VArr xs)) = then_rules env ms path [] ?A'"
      unfolding st unfolding sS validate_array[OF p] Z' ..
    show ?thesis
      unfolding V V' using errs vals by (simp add: then_rules_def)
  qed
qed simp_all


lemma coerce_undefined: "coerce env k rs VUndefined = VUndefined"
  by (cases k) simp_all

lemma validate_absent_stripped:
  assumes "plain s"
  shows "strip_unknown s (snd (validate env True path s VUndefined)) =
         snd (validate env True path s VUndefined)"
proof -
  obtain k p d vs only rs ms where s: "s = Schema k p d vs only rs ms" by (cases s)
  have v: "validate env True path s VUndefined = absent_result env ms path p d"
    unfolding s by (simp add: validate.simps coerce_undefined)
  show ?thesis
  proof (cases "(\<exists>ks. k = KObject ks) \<or> (\<exists>s'. k = KArray s')")
    case False
    then show ?thesis
      by (intro strip_unknown_scalar) (auto simp: s)
  next
    case True
    then show ?thesis
      using assms unfolding v unfolding s
      by (auto simp: absent_result_def default_value_def split: presence.splits)
  qed
qed

lemma apply_size_rule: "is_size_rule r \<Longrightarrow> apply_rule env r v = Inr w \<Longrightarrow> w = v"
  by (cases r; cases v) (auto split: if_splits)

lemma run_size_rules:
  "list_all is_size_rule rs \<Longrightarrow> fst (run_rules env ms path rs v) = [] \<Longrightarrow>
   snd (run_rules env ms path rs v) = v"
proof (induction rs)
  case Nil
  then show ?case by simp
next
  case (Cons r rs)
  show ?case
  proof (cases "apply_rule env r v")
    case (Inl code)
    then show ?thesis using Cons.prems(2) by (simp split: prod.splits)
  next
    case (Inr w)
    have "w = v" using Cons.prems(1) Inr by (auto intro: apply_size_rule)
    then show ?thesis using Cons Inr by simp
  qed
qed

lemma then_size_rules:
  assumes "list_all is_size_rule rs" and "fst (then_rules env ms path rs parts) = []"
  shows "fst parts = [] \<and> snd (then_rules env ms path rs parts) = snd parts"
proof -
  have e: "fst parts = []"
    using assms(2) by (auto simp: then_rules_def split: if_splits)
  then have "then_rules env ms path rs parts = run_rules env ms path rs (snd parts)"
    by (simp add: then_rules_def)
  then show ?thesis
    using e run_size_rules[OF assms(1), of env ms path "snd parts"] assms(2) by simp
qed

lemma filter_map_fixed:
  "(\<And>e. e \<in> set xs \<Longrightarrow> P e \<and> f e = e) \<Longrightarrow> filter P (map f xs) = xs"
  by (induction xs) auto

lemma validate_wrong_type:
  assumes "p \<noteq> Forbidden" and "vs = []" and "v \<noteq> VUndefined"
    and "(\<exists>ks. k = KObject ks \<and> (\<forall>kvs. v \<noteq> VObj kvs)) \<or> (\<exists>s'. k = KArray s' \<and> (\<forall>xs. v \<noteq> VArr xs))"
  shows "fst (validate env True path (Schema k p d vs only rs ms) v) \<noteq> []"
proof -
  have c: "coerce env k rs v = v"
    using assms(4) by (auto simp: coerce_object coerce_array)
  have "\<exists>code. base_error k v = Some code"
    using assms(3,4) by (cases v) auto
  then show ?thesis
    using assms(1,2,3) by (auto simp: validate.simps c with_only_def)
qed

lemma collect_object_value:
  "snd (collect_object True ms path declared kvs (map (\<lambda>e. (fst e, F e)) ks)) =
   VObj (concat (map (\<lambda>e. if snd (F e) = VUndefined then [] else [(fst e, snd (F e))]) ks))"
  by (induction ks) (auto simp: collect_object_def split: prod.splits)

lemma validated_scalar_stripped:
  assumes "plain s" and "fst (validate env True path s v) = []"
    and "\<forall>kvs. v \<noteq> VObj kvs" and "\<forall>xs. v \<noteq> VArr xs"
  shows "strip_unknown s (snd (validate env True path s v)) = snd (validate env True path s v)"
proof (cases "v = VUndefined")
  case True
  then show ?thesis using assms(1) by (simp add: validate_absent_stripped)
next
  case False
  obtain k p d vs only rs ms where s: "s = Schema k p d vs only rs ms" by (cases s)
  show ?thesis
  proof (cases "(\<exists>ks. k = KObject ks) \<or> (\<exists>s'. k = KArray s')")
    case False
    then show ?thesis by (intro strip_unknown_scalar) (auto simp: s)
  next
    case True
    have "fst (validate env True path s v) \<noteq> []"
      unfolding s using assms(1)[unfolded s] True False assms(3,4)
      by (intro validate_wrong_type) auto
    with assms(2) show ?thesis by simp
  qed
qed

lemma validated_stripped:
  "plain s \<Longrightarrow> fst (validate env True path s v) = [] \<Longrightarrow>
   strip_unknown s (snd (validate env True path s v)) = snd (validate env True path s v)"
proof (induction s v arbitrary: path rule: strip_unknown.induct)
  case (1 s kvs)
  obtain k p d vs only rs ms where s: "s = Schema k p d vs only rs ms" by (cases s)
  consider (obj) ks where "k = KObject ks" | (arr) s' where "k = KArray s'"
    | (other) "\<forall>ks. k \<noteq> KObject ks" "\<forall>s'. k \<noteq> KArray s'"
    by blast
  then show ?case
  proof cases
    case other
    then show ?thesis by (intro strip_unknown_scalar) (simp_all add: s)
  next
    case arr
    have "fst (validate env True path s (VObj kvs)) \<noteq> []"
      unfolding s using "1.prems"(1)[unfolded s arr]
      by (intro validate_wrong_type) (auto simp: arr)
    with "1.prems"(2) show ?thesis by simp
  next
    case obj
    from "1.prems"(1) have p: "p \<noteq> Forbidden" and vs: "vs = []" and only: "\<not> only"
      and size: "list_all is_size_rule rs"
      and dist: "distinct (map fst ks)" and pl: "\<And>key s'. (key, s') \<in> set ks \<Longrightarrow> plain s'"
      unfolding s obj by (auto simp: list_all_iff)
    let ?S = "Schema (KObject ks) p d [] False rs ms"
    have sS: "s = ?S" using s obj vs only by simp
    have sk: "schema_kind s = KObject ks" unfolding sS by simp
    let ?F = "\<lambda>(key, s'). validate env True (path @ [key]) s' (js_prop (VObj kvs) key)"
    let ?R = "object_children env True path ks (VObj kvs)"
    have R: "?R = map (\<lambda>e. (fst e, ?F e)) ks"
      unfolding object_children_def by (rule map_cong[OF refl]) (simp add: split_beta)
    let ?C = "collect_object True ms path (map fst ks) kvs ?R"
    have eC: "fst ?C = concat (map (\<lambda>e. fst (?F e)) ks)"
      unfolding collect_object_errors R by (simp add: comp_def split_beta)
    let ?out = "concat (map (\<lambda>e. if snd (?F e) = VUndefined then [] else [(fst e, snd (?F e))]) ks)"
    have vC: "snd ?C = VObj ?out"
      unfolding R by (rule collect_object_value)
    have V: "validate env True path s (VObj kvs) = then_rules env ms path rs ?C"
      unfolding sS by (rule validate_object_plain[OF p])
    from then_size_rules[OF size "1.prems"(2)[unfolded V]]
    have none: "fst ?C = []" and out: "snd (validate env True path s (VObj kvs)) = VObj ?out"
      unfolding V vC by simp_all
    let ?D = "\<lambda>(key, x). key \<in> set (map fst ks)"
    let ?g = "\<lambda>(key, x). (key, case map_of ks key of Some s' \<Rightarrow> strip_unknown s' x | None \<Rightarrow> x)"
    have fixed: "?D e \<and> ?g e = e" if e: "e \<in> set ?out" for e
    proof -
      from e obtain c where c: "c \<in> set ks" and nu: "snd (?F c) \<noteq> VUndefined"
        and ec: "e = (fst c, snd (?F c))"
        by (auto split: if_splits)
      obtain key s' where cs: "c = (key, s')" by (cases c)
      have in_ks: "(key, s') \<in> set ks" using c cs by simp
      have m: "map_of ks key = Some s'" using dist in_ks by (rule map_of_is_SomeI)
      have ne: "fst (?F c) = []"
        using concat_map_nil[OF none[unfolded eC] c] .
      have st: "strip_unknown s' (snd (?F c)) = snd (?F c)"
      proof (cases "map_of kvs key")
        case None
        then have u: "js_prop (VObj kvs) key = VUndefined" by simp
        show ?thesis unfolding cs prod.case u
          by (rule validate_absent_stripped[OF pl[OF in_ks]])
      next
        case (Some x)
        then have x: "(key, x) \<in> set kvs" by (rule map_of_SomeD)
        have jx: "js_prop (VObj kvs) key = x" using Some by simp
        show ?thesis
          unfolding cs prod.case jx
          by (rule "1.IH"[OF sk x refl m pl[OF in_ks]]) (use ne Some in \<open>simp add: cs\<close>)
      qed
      have "key \<in> set (map fst ks)" using in_ks by force
      then show ?thesis
        unfolding ec using st m by (simp add: cs del: set_map)
    qed
    have "strip_unknown s (VObj ?out) = VObj (filter ?D (map ?g ?out))"
      unfolding sS by simp
    also have "filter ?D (map ?g ?out) = ?out"
      by (rule filter_map_fixed) (rule fixed)
    finally show ?thesis
      unfolding out .
  qed
next
  case (2 s xs)
  obtain k p d vs only rs ms where s: "s = Schema k p d vs only rs ms" by (cases s)
  consider (obj) ks where "k = KObject ks" | (arr) s' where "k = KArray s'"
    | (other) "\<forall>ks. k \<noteq> KObject ks" "\<forall>s'. k \<noteq> KArray s'"
    by blast
  then show ?case
  proof cases
    case other
    then show ?thesis by (intro strip_unknown_scalar) (simp_all add: s)
  next
    case obj
    have "fst (validate env True path s (VArr xs)) \<noteq> []"
      unfolding s using "2.prems"(1)[unfolded s obj]
      by (intro validate_wrong_type) (auto simp: obj)
    with "2.prems"(2) show ?thesis by simp
  next
    case arr
    from "2.prems"(1) have p: "p \<noteq> Forbidden" and vs: "vs = []" and only: "\<not> only"
      and rs: "rs = []" and pl: "plain s'"
      unfolding s arr by auto
    let ?S = "Schema (KArray s') p d [] False [] ms"
    have sS: "s = ?S" using s arr vs only rs by simp
    have sk: "schema_kind s = KArray s'" unfolding sS by simp
    let ?Z = "zip [0..<length xs] xs"
    let ?V = "\<lambda>i x. validate env True (path @ [show_nat i]) s' x"
    let ?A = "collect_array ms path (map (\<lambda>(i, x). (i, x, ?V i x)) ?Z)"
    let ?e = "\<lambda>(i, x). if x = VUndefined
        then [joi_error ms (path @ [show_nat i]) ''array.sparse'' x] else fst (?V i x)"
    let ?w = "\<lambda>(i, x). if x \<noteq> VUndefined \<and> fst (?V i x) = [] then snd (?V i x) else x"
    have eA: "fst ?A = concat (map ?e ?Z)"
      using collect_array_errors[of ms path ?V "\<lambda>x. x" ?Z] by (simp only: map_pair_id)
    have vA: "snd ?A = VArr (map ?w ?Z)"
      using collect_array_value[of ms path ?V "\<lambda>x. x" ?Z] by (simp only: map_pair_id)
    have V: "validate env True path s (VArr xs) = then_rules env ms path [] ?A"
      unfolding sS by (rule validate_array[OF p])
    from then_size_rules[OF _ "2.prems"(2)[unfolded V]]
    have none: "fst ?A = []" and out: "snd (validate env True path s (VArr xs)) = VArr (map ?w ?Z)"
      unfolding V vA by simp_all
    have each: "strip_unknown s' (?w z) = ?w z" if zin: "z \<in> set ?Z" for z
    proof -
      obtain i x where z: "z = (i, x)" by (cases z)
      have "?e (i, x) = []"
        using concat_map_nil[OF none[unfolded eA] zin[unfolded z]] .
      then have nu: "x \<noteq> VUndefined" and ne: "fst (?V i x) = []"
        by (auto split: if_splits)
      have "x \<in> set xs" using zin[unfolded z] by (rule set_zip_rightD)
      then have "strip_unknown s' (snd (?V i x)) = snd (?V i x)"
        by (rule "2.IH"[OF sk _ pl ne])
      then show ?thesis
        unfolding z using nu ne by simp
    qed
    have "strip_unknown s (VArr (map ?w ?Z)) = VArr (map (strip_unknown s') (map ?w ?Z))"
      unfolding sS by simp
    also have "map (strip_unknown s') (map ?w ?Z) = map ?w ?Z"
      unfolding map_map by (rule map_cong[OF refl]) (use each in simp)
    finally show ?thesis
      unfolding out .
  qed
qed (simp_all add: validated_scalar_stripped)

lemma plain_createCustomerSchema: "plain createCustomerSchema"
  by code_simp

lemma plain_updateCustomerSchema: "plain updateCustomerSchema"
  by code_simp

lemma validateRequest_strip_unknown:
  assumes "plain s"
  shows "validateRequest env s body next = validateRequest env s (strip_unknown s body) next"
  using validate_strip_unknown[OF assms, of env "[]" body]
  by (auto simp: validateRequest_def respond_or_next_def)

text \<open>
  C10. For a create and for an update request, \<^verbatim>\<open>validateRequest\<close> gives the same result,
  the 400 with its errors or what the handler does with the validated value, as for the
  body from which every field its schema does not declare has been removed, at every
  depth: in the body, in the address, in the preferences and the notification
  preferences, and in each document. When the body is valid the validated value has
  nothing left to remove, and the keys of the validated value of an object are always
  among the declared ones.
\<close>

theorem unknown_fields_stripped:
  "validateRequest env createCustomerSchema body next =
   validateRequest env createCustomerSchema (strip_unknown createCustomerSchema body) next
   \<and> validateRequest env updateCustomerSchema body next =
     validateRequest env updateCustomerSchema (strip_unknown updateCustomerSchema body) next
   \<and> (fst (validate env True [] createCustomerSchema body) = [] \<longrightarrow>
        strip_unknown createCustomerSchema (snd (validate env True [] createCustomerSchema body)) =
        snd (validate env True [] createCustomerSchema body))
   \<and> (fst (validate env True [] updateCustomerSchema body) = [] \<longrightarrow>
        strip_unknown updateCustomerSchema (snd (validate env True [] updateCustomerSchema body)) =
        snd (validate env True [] updateCustomerSchema body))
   \<and> (\<exists>out. snd (validate env True [] createCustomerSchema (VObj kvs)) = VObj out \<and>
          set (map fst out) \<subseteq> set (declared_keys createCustomerSchema))
   \<and> (\<exists>out. snd (validate env True [] updateCustomerSchema (VObj kvs)) = VObj out \<and>
          set (map fst out) \<subseteq> set (declared_keys updateCustomerSchema))"
proof (intro conjI impI)
  have dc: "declared_keys createCustomerSchema =
      map fst (case schema_kind createCustomerSchema of KObject ks \<Rightarrow> ks | _ \<Rightarrow> [])"
    by (simp add: declared_keys_def createCustomerSchema_eq)
  have du: "declared_keys updateCustomerSchema =
      map fst (case schema_kind updateCustomerSchema of KObject ks \<Rightarrow> ks | _ \<Rightarrow> [])"
    by (simp add: declared_keys_def updateCustomerSchema_eq)
  show "validateRequest env createCustomerSchema body next =
   validateRequest env createCustomerSchema (strip_unknown createCustomerSchema body) next"
    by (rule validateRequest_strip_unknown[OF plain_createCustomerSchema])
  show "validateRequest env updateCustomerSchema body next =
     validateRequest env updateCustomerSchema (strip_unknown updateCustomerSchema body) next"
    by (rule validateRequest_strip_unknown[OF plain_updateCustomerSchema])
  show "strip_unknown createCustomerSchema (snd (validate env True [] createCustomerSchema body)) =
        snd (validate env True [] createCustomerSchema body)"
    if "fst (validate env True [] createCustomerSchema body) = []"
    using plain_createCustomerSchema that by (rule validated_stripped)
  show "strip_unknown updateCustomerSchema (snd (validate env True [] updateCustomerSchema body)) =
        snd (validate env True [] updateCustomerSchema body)"
    if "fst (validate env True [] updateCustomerSchema body) = []"
    using plain_updateCustomerSchema that by (rule validated_stripped)
  show "\<exists>out. snd (validate env True [] createCustomerSchema (VObj kvs)) = VObj out \<and>
          set (map fst out) \<subseteq> set (declared_keys createCustomerSchema)"
    unfolding dc unfolding createCustomerSchema_eq schema.sel kind.case
    by (rule validated_keys) simp_all
  show "\<exists>out. snd (validate env True [] updateCustomerSchema (VObj kvs)) = VObj out \<and>
          set (map fst out) \<subseteq> set (declared_keys updateCustomerSchema)"
    unfolding du unfolding updateCustomerSchema_eq schema.sel kind.case
    by (rule validated_keys) simp_all
qed

text \<open>
  The theorem at Ana's registration with five fields no schema declares, in the body, the
  address, a document, the preferences and the notification preferences: the value the
  handler is given has none of them.
\<close>

theorem unknown_fields_stripped_witness:
  "validateRequest sample_env createCustomerSchema (VObj padded_fields) (\<lambda>v. v) =
     Inr (VObj
       [(''firstName'', VStr ''Ana''), (''lastName'', VStr ''Ruiz''),
        (''email'', VStr ''ana@x.com''), (''phone'', VStr ''+57 300 111 2222''),
        (''dateOfBirth'',
           VDate \<lparr>getFullYear = 1990, getMonth = 0, getDate = 1, getTimeOfDay = 0\<rparr>),
        (''nationalId'', VStr ''12345678''),
        (''address'', VObj [(''street'', VStr ''Calle 1''), (''city'', VStr ''Bogota''),
                            (''state'', VStr ''Cund.''), (''postalCode'', VStr ''110001''),
                            (''country'', VStr ''Colombia'')]),
        (''documents'',
           VArr [VObj [(''type'', VStr ''passport''), (''filename'', VStr ''passport.pdf''),
                       (''uploadDate'',
                          VDate \<lparr>getFullYear = 2026, getMonth = 10, getDate = 3,
                                 getTimeOfDay = 43200000\<rparr>),
                       (''verified'', VBool False)]]),
        (''preferences'',
           VObj [(''language'', VStr ''es''), (''currency'', VStr ''COP''),
                 (''notificationPreferences'',
                    VObj [(''email'', VBool False), (''sms'', VBool True), (''push'', VBool True)]),
                 (''marketingConsent'', VBool False)])])
   \<and> strip_unknown createCustomerSchema (VObj padded_fields) =
     VObj
       [(''firstName'', VStr ''Ana''), (''lastName'', VStr ''Ruiz''),
        (''email'', VStr ''ANA@X.COM''), (''phone'', VStr ''+57 300 111 2222''),
        (''dateOfBirth'', VStr ''1990-01-01''), (''nationalId'', VStr ''12345678''),
        (''address'', VObj [(''street'', VStr ''Calle 1''), (''city'', VStr ''Bogota''),
                            (''state'', VStr ''Cund.''), (''postalCode'', VStr ''110001'')]),
        (''documents'',
           VArr [VObj [(''type'', VStr ''passport''), (''filename'', VStr ''passport.pdf'')]]),
        (''preferences'',
           VObj [(''notificationPreferences'', VObj [(''email'', VBool False)])])]
   \<and> strip_unknown createCustomerSchema
       (snd (validate sample_env True [] createCustomerSchema (VObj padded_fields))) =
     snd (validate sample_env True [] createCustomerSchema (VObj padded_fields))"
proof -
  note t = unknown_fields_stripped[of sample_env "VObj padded_fields" "\<lambda>v. v"]
  have s: "strip_unknown createCustomerSchema (VObj padded_fields) =
     VObj
       [(''firstName'', VStr ''Ana''), (''lastName'', VStr ''Ruiz''),
        (''email'', VStr ''ANA@X.COM''), (''phone'', VStr ''+57 300 111 2222''),
        (''dateOfBirth'', VStr ''1990-01-01''), (''nationalId'', VStr ''12345678''),
        (''address'', VObj [(''street'', VStr ''Calle 1''), (''city'', VStr ''Bogota''),
                            (''state'', VStr ''Cund.''), (''postalCode'', VStr ''110001'')]),
        (''documents'',
           VArr [VObj [(''type'', VStr ''passport''), (''filename'', VStr ''passport.pdf'')]]),
        (''preferences'',
           VObj [(''notificationPreferences'', VObj [(''email'', VBool False)])])]"
    by code_simp
  have v: "validateRequest sample_env createCustomerSchema
     (VObj
       [(''firstName'', VStr ''Ana''), (''lastName'', VStr ''Ruiz''),
        (''email'', VStr ''ANA@X.COM''), (''phone'', VStr ''+57 300 111 2222''),
        (''dateOfBirth'', VStr ''1990-01-01''), (''nationalId'', VStr ''12345678''),
        (''address'', VObj [(''street'', VStr ''Calle 1''), (''city'', VStr ''Bogota''),
                            (''state'', VStr ''Cund.''), (''postalCode'', VStr ''110001'')]),
        (''documents'',
           VArr [VObj [(''type'', VStr ''passport''), (''filename'', VStr ''passport.pdf'')]]),
        (''preferences'',
           VObj [(''notificationPreferences'', VObj [(''email'', VBool False)])])])
     (\<lambda>v. v) =
     Inr (VObj
       [(''firstName'', VStr ''Ana''), (''lastName'', VStr ''Ruiz''),
        (''email'', VStr ''ana@x.com''), (''phone'', VStr ''+57 300 111 2222''),
        (''dateOfBirth'',
           VDate \<lparr>getFullYear = 1990, getMonth = 0, getDate = 1, getTimeOfDay = 0\<rparr>),
        (''nationalId'', VStr ''12345678''),
        (''address'', VObj [(''street'', VStr ''Calle 1''), (''city'', VStr ''Bogota''),
                            (''state'', VStr ''Cund.''), (''postalCode'', VStr ''110001''),
                            (''country'', VStr ''Colombia'')]),
        (''documents'',
           VArr [VObj [(''type'', VStr ''passport''), (''filename'', VStr ''passport.pdf''),
                       (''uploadDate'',
                          VDate \<lparr>getFullYear = 2026, getMonth = 10, getDate = 3,
                                 getTimeOfDay = 43200000\<rparr>),
                       (''verified'', VBool False)]]),
        (''preferences'',
           VObj [(''language'', VStr ''es''), (''currency'', VStr ''COP''),
                 (''notificationPreferences'',
                    VObj [(''email'', VBool False), (''sms'', VBool True), (''push'', VBool True)]),
                 (''marketingConsent'', VBool False)])])"
    by code_simp
  have e: "fst (validate sample_env True [] createCustomerSchema (VObj padded_fields)) = []"
    by code_simp
  show ?thesis
    apply (intro conjI)
      apply (rule trans[OF t[THEN conjunct1]])
      apply (unfold s)
      apply (rule v)
     apply (rule refl)
    apply (rule t[THEN conjunct2, THEN conjunct2, THEN conjunct1, rule_format, OF e])
    done
qed

subsection \<open>The search query\<close>

lemma searchCustomerSchema_eq:
  "searchCustomerSchema = Schema (KObject
     [(''q'', Schema KString Optional NoDefault [] False [Trim, Min 3, Max 100]
         [(''string.min'', ''Search query must be at least 3 characters''),
          (''string.max'', ''Search query must not exceed 100 characters'')]),
      (''status'', Schema KString Optional NoDefault
         [VStr ''active'', VStr ''inactive'', VStr ''suspended'', VStr ''pending_verification'']
         True [] []),
      (''complianceStatus'', Schema KString Optional NoDefault
         [VStr ''pending'', VStr ''approved'', VStr ''rejected'', VStr ''under_review'']
         True [] []),
      (''country'', Schema KString Optional NoDefault [] False [Trim, Min 2, Max 100] []),
      (''page'', Schema KNumber Optional (Default (VNum 1)) [] False [Integer, Min 1] []),
      (''limit'', Schema KNumber Optional (Default (VNum 10)) [] False
         [Integer, Min 1, Max 100] [])])
     Optional NoDefault [] False [] []"
  by (simp add: searchCustomerSchema_def chain_def Joi_def trim_def minimum_def maximum_def
        integer_def)

lemma run_rules_field:
  "e \<in> set (fst (run_rules env ms path rs v)) \<Longrightarrow> field e = join_path path"
proof (induction rs arbitrary: v)
  case Nil
  then show ?case by simp
next
  case (Cons r rs)
  show ?case
  proof (cases "apply_rule env r v")
    case (Inl code)
    then have "fst (run_rules env ms path (r # rs) v) =
        joi_error ms path code v # fst (run_rules env ms path rs v)"
      by (simp split: prod.splits)
    with Cons.prems have "e = joi_error ms path code v \<or> e \<in> set (fst (run_rules env ms path rs v))"
      by auto
    then show ?thesis
      using Cons.IH by (auto simp: joi_error_def)
  next
    case (Inr v')
    then have "run_rules env ms path (r # rs) v = run_rules env ms path rs v'"
      by simp
    with Cons show ?thesis by auto
  qed
qed

lemma nonempty_has_member: "xs \<noteq> [] \<Longrightarrow> \<exists>e. e \<in> set xs"
  by (cases xs) auto

lemma limit_valid:
  assumes "number_coerce s = Some (of_int n)" and "1 \<le> n" and "n \<le> 100"
  shows "validate env strip path
           (Schema KNumber Optional (Default (VNum 10)) [] False [Integer, Min 1, Max 100] [])
           (VStr s) = ([], VNum (of_int n))"
proof -
  have safe: "\<not> (max_safe_integer < of_int n \<or> (of_int n :: rat) < - max_safe_integer)"
    using assms(2,3) by (simp add: max_safe_integer_def)
  have lo: "\<not> (of_int n :: rat) < 1" using assms(2) by simp
  have hi: "\<not> (100 :: rat) < of_int n" using assms(3) by simp
  show ?thesis
    using safe lo hi
    by (simp add: validate.simps assms(1) with_only_def then_rules_def Let_def)
qed

lemma limit_invalid:
  assumes "number_coerce s = Some x" and "x < 1 \<or> 100 < x \<or> of_int \<lfloor>x\<rfloor> \<noteq> x"
  shows "\<exists>e \<in> set (fst (validate env strip path
           (Schema KNumber Optional (Default (VNum 10)) [] False [Integer, Min 1, Max 100] [])
           (VStr s))). field e = join_path path"
proof (cases "max_safe_integer < x \<or> x < - max_safe_integer")
  case True
  then show ?thesis
    by (auto simp: validate.simps assms(1) with_only_def joi_error_def Let_def)
next
  case False
  have v: "validate env strip path
           (Schema KNumber Optional (Default (VNum 10)) [] False [Integer, Min 1, Max 100] [])
           (VStr s) = run_rules env [] path [Integer, Min 1, Max 100] (VNum x)"
    using False by (simp add: validate.simps assms(1) with_only_def then_rules_def Let_def)
  have "fst (run_rules env [] path [Integer, Min 1, Max 100] (VNum x)) \<noteq> []"
    using assms(2) by auto
  then obtain e where e: "e \<in> set (fst (run_rules env [] path [Integer, Min 1, Max 100] (VNum x)))"
    using nonempty_has_member by blast
  then have "field e = join_path path" by (rule run_rules_field)
  with e show ?thesis unfolding v by blast
qed

lemma limit_not_a_number:
  assumes "number_coerce s = None"
  shows "\<exists>e \<in> set (fst (validate env strip path
           (Schema KNumber Optional (Default (VNum 10)) [] False [Integer, Min 1, Max 100] [])
           (VStr s))). field e = join_path path"
  by (simp add: validate.simps assms with_only_def joi_error_def Let_def)

lemma q_too_short:
  assumes "length (js_trim s) < 3"
  shows "\<exists>e \<in> set (fst (validate env strip path
           (Schema KString Optional NoDefault [] False [Trim, Min 3, Max 100] ms) (VStr s))).
           field e = join_path path"
proof (cases "js_trim s = []")
  case True
  then show ?thesis
    by (simp add: validate.simps with_only_def joi_error_def Let_def)
next
  case False
  then show ?thesis
    using assms by (simp add: validate.simps with_only_def then_rules_def joi_error_def Let_def)
qed

lemma absent_default:
  "validate env strip path (Schema KNumber Optional (Default v) [] False rs ms) VUndefined = ([], v)"
  by (simp add: validate.simps absent_result_def default_value_def Let_def)

lemma object_children_keys:
  "map fst (object_children env strip path ks v) = map fst ks"
  by (induction ks) (auto simp: object_children_def)

lemma kept_fields_absent:
  "k \<notin> fst ` set results \<Longrightarrow>
   map_of (concat (map (\<lambda>(key, es, r). if r = VUndefined then [] else [(key, r)]) results)) k = None"
  by (induction results) (auto split: if_splits)

lemma kept_fields_lookup:
  "distinct (map fst results) \<Longrightarrow> (key, es, r) \<in> set results \<Longrightarrow>
   map_of (concat (map (\<lambda>(key, es, r). if r = VUndefined then [] else [(key, r)]) results)) key =
     (if r = VUndefined then None else Some r)"
proof (induction results)
  case Nil
  then show ?case by simp
next
  case (Cons a results)
  obtain k' es' r' where a: "a = (k', es', r')" by (cases a)
  show ?case
  proof (cases "k' = key")
    case True
    have "key \<notin> fst ` set results" using Cons.prems(1) a True by simp
    then have none: "map_of (concat (map (\<lambda>(key, es, r). if r = VUndefined then [] else [(key, r)])
        results)) key = None"
      by (rule kept_fields_absent)
    have "(key, es, r) = a"
      using Cons.prems a True by (auto simp: image_iff)
    then show ?thesis using none a by (simp add: map_add_def)
  next
    case False
    then have "(key, es, r) \<in> set results" using Cons.prems(2) a by auto
    then have "map_of (concat (map (\<lambda>(key, es, r). if r = VUndefined then [] else [(key, r)])
        results)) key = (if r = VUndefined then None else Some r)"
      using Cons.IH Cons.prems(1) by simp
    then show ?thesis using False a by (simp add: map_add_def)
  qed
qed

lemma collect_lookup:
  assumes "distinct (map fst ks)" and "(key, s) \<in> set ks"
  shows "js_prop (snd (collect_object True ms path declared kvs
                         (object_children env True path ks v))) key =
         snd (validate env True (path @ [key]) s (js_prop v key))"
proof -
  let ?r = "validate env True (path @ [key]) s (js_prop v key)"
  have d: "distinct (map fst (object_children env True path ks v))"
    using assms(1) by (simp only: object_children_keys)
  have m: "(key, fst ?r, snd ?r) \<in> set (object_children env True path ks v)"
    unfolding object_children_def using assms(2)
    by (auto simp: image_iff intro!: bexI[of _ "(key, s)"])
  show ?thesis
    using kept_fields_lookup[OF d m] by (simp add: collect_object_def)
qed

lemma then_rules_nil: "then_rules env ms path [] parts = parts"
  by (cases parts) (simp add: then_rules_def)

lemma map_of_filter_other:
  "k \<noteq> k0 \<Longrightarrow> map_of (filter (\<lambda>(key, x). key \<noteq> k0) kvs) k = map_of kvs k"
  by (induction kvs) auto

lemma map_of_filter_same:
  "map_of (filter (\<lambda>(key, x). key \<noteq> k0) kvs) k0 = None"
  by (induction kvs) auto

lemma validate_search:
  "validate env True [] searchCustomerSchema (VObj kvs) =
     collect_object True [] [] (declared_keys searchCustomerSchema) kvs
       (object_children env True []
          (case schema_kind searchCustomerSchema of KObject ks \<Rightarrow> ks | _ \<Rightarrow> []) (VObj kvs))"
  unfolding declared_keys_def unfolding searchCustomerSchema_eq schema.sel kind.case
  by (simp add: validate_object with_only_def then_rules_nil)

lemma search_child_error:
  assumes "(key, s) \<in> set (case schema_kind searchCustomerSchema of KObject ks \<Rightarrow> ks | _ \<Rightarrow> [])"
    and "\<exists>e \<in> set (fst (validate env True ([] @ [key]) s (js_prop (VObj kvs) key))).
           field e = join_path ([] @ [key])"
  shows "\<exists>errors. validateQuery env searchCustomerSchema (VObj kvs) next =
           Inl (Reply 400 (FailureBody ''Invalid query parameters'' errors))
         \<and> (\<exists>e \<in> set errors. field e = key)"
proof -
  from assms(2) obtain e where
    e: "e \<in> set (fst (validate env True ([] @ [key]) s (js_prop (VObj kvs) key)))"
    and f: "field e = key" by auto
  have "e \<in> set (fst (validate env True [] searchCustomerSchema (VObj kvs)))"
    unfolding validate_search by (rule child_error_in_object[OF assms(1) e])
  then have m: "\<exists>e \<in> set (fst (validate env True [] searchCustomerSchema (VObj kvs))). field e = key"
    using f by blast
  then have "fst (validate env True [] searchCustomerSchema (VObj kvs)) \<noteq> []" by auto
  then have "validateQuery env searchCustomerSchema (VObj kvs) next =
      Inl (Reply 400 (FailureBody ''Invalid query parameters''
             (fst (validate env True [] searchCustomerSchema (VObj kvs)))))"
    by (simp add: validateQuery_def respond_or_next_def)
  with m show ?thesis by blast
qed

lemma search_lookup:
  assumes "(key, s) \<in> set (case schema_kind searchCustomerSchema of KObject ks \<Rightarrow> ks | _ \<Rightarrow> [])"
  shows "js_prop (snd (validate env True [] searchCustomerSchema (VObj kvs))) key =
         snd (validate env True ([] @ [key]) s (js_prop (VObj kvs) key))"
  unfolding validate_search
  by (rule collect_lookup[OF _ assms]) (simp add: searchCustomerSchema_eq)

lemma search_errors_without_limit:
  assumes "fst (validate env True [''limit'']
             (Schema KNumber Optional (Default (VNum 10)) [] False [Integer, Min 1, Max 100] [])
             (js_prop (VObj kvs) ''limit'')) = []"
  shows "fst (validate env True [] searchCustomerSchema (VObj kvs)) =
         fst (validate env True [] searchCustomerSchema
                (VObj (filter (\<lambda>(key, x). key \<noteq> ''limit'') kvs)))"
proof -
  have other: "js_prop (VObj (filter (\<lambda>(key, x). key \<noteq> ''limit'') kvs)) k = js_prop (VObj kvs) k"
    if "k \<noteq> ''limit''" for k
    using that by (simp add: map_of_filter_other)
  have same: "js_prop (VObj (filter (\<lambda>(key, x). key \<noteq> ''limit'') kvs)) ''limit'' = VUndefined"
    by (simp add: map_of_filter_same)
  show ?thesis
    unfolding validate_search collect_object_errors
    unfolding searchCustomerSchema_eq schema.sel kind.case object_children_def
    using assms
    by (simp add: other same absent_default split_beta del: js_prop.simps)
qed

text \<open>
  C7, amended. A search term shorter than 3 characters after trimming is answered with a
  400 naming \<^verbatim>\<open>q\<close>; an omitted \<^verbatim>\<open>page\<close> is validated as 1 and an omitted \<^verbatim>\<open>limit\<close> as 10; a
  \<^verbatim>\<open>limit\<close> that reads as a number below 1, above 100 or not whole, or that does not read
  as a number, is answered with a 400 naming \<^verbatim>\<open>limit\<close>; a \<^verbatim>\<open>limit\<close> that reads as a whole
  number from 1 to 100 is validated as that number and adds no error to the query.
\<close>

theorem search_query_rules:
  "(\<forall>s. map_of kvs ''q'' = Some (VStr s) \<and> length (js_trim s) < 3 \<longrightarrow>
      (\<exists>errors. validateQuery env searchCustomerSchema (VObj kvs) next =
           Inl (Reply 400 (FailureBody ''Invalid query parameters'' errors))
         \<and> (\<exists>e \<in> set errors. field e = ''q'')))
   \<and> (map_of kvs ''page'' = None \<longrightarrow>
        js_prop (snd (validate env True [] searchCustomerSchema (VObj kvs))) ''page'' = VNum 1)
   \<and> (map_of kvs ''limit'' = None \<longrightarrow>
        js_prop (snd (validate env True [] searchCustomerSchema (VObj kvs))) ''limit'' = VNum 10)
   \<and> (\<forall>s x. map_of kvs ''limit'' = Some (VStr s) \<and> number_coerce s = Some x \<and>
            (x < 1 \<or> 100 < x \<or> of_int \<lfloor>x\<rfloor> \<noteq> x) \<longrightarrow>
      (\<exists>errors. validateQuery env searchCustomerSchema (VObj kvs) next =
           Inl (Reply 400 (FailureBody ''Invalid query parameters'' errors))
         \<and> (\<exists>e \<in> set errors. field e = ''limit'')))
   \<and> (\<forall>s. map_of kvs ''limit'' = Some (VStr s) \<and> number_coerce s = None \<longrightarrow>
      (\<exists>errors. validateQuery env searchCustomerSchema (VObj kvs) next =
           Inl (Reply 400 (FailureBody ''Invalid query parameters'' errors))
         \<and> (\<exists>e \<in> set errors. field e = ''limit'')))
   \<and> (\<forall>s n. map_of kvs ''limit'' = Some (VStr s) \<and> number_coerce s = Some (of_int n) \<and>
            1 \<le> n \<and> n \<le> 100 \<longrightarrow>
        js_prop (snd (validate env True [] searchCustomerSchema (VObj kvs))) ''limit'' =
          VNum (of_int n) \<and>
        fst (validate env True [] searchCustomerSchema (VObj kvs)) =
        fst (validate env True [] searchCustomerSchema
               (VObj (filter (\<lambda>(key, x). key \<noteq> ''limit'') kvs))))"
proof (intro conjI allI impI)
  fix s assume h: "map_of kvs ''q'' = Some (VStr s) \<and> length (js_trim s) < 3"
  then have q: "js_prop (VObj kvs) ''q'' = VStr s" by simp
  show "\<exists>errors. validateQuery env searchCustomerSchema (VObj kvs) next =
           Inl (Reply 400 (FailureBody ''Invalid query parameters'' errors))
         \<and> (\<exists>e \<in> set errors. field e = ''q'')"
    by (rule search_child_error[where s = "Schema KString Optional NoDefault [] False
          [Trim, Min 3, Max 100]
          [(''string.min'', ''Search query must be at least 3 characters''),
           (''string.max'', ''Search query must not exceed 100 characters'')]"])
       (simp add: searchCustomerSchema_eq, unfold q, rule q_too_short, simp add: h)
next
  assume "map_of kvs ''page'' = None"
  then have p: "js_prop (VObj kvs) ''page'' = VUndefined" by simp
  show "js_prop (snd (validate env True [] searchCustomerSchema (VObj kvs))) ''page'' = VNum 1"
    by (subst search_lookup[where s = "Schema KNumber Optional (Default (VNum 1)) [] False
          [Integer, Min 1] []"])
       (simp_all add: searchCustomerSchema_eq p absent_default del: js_prop.simps)
next
  assume "map_of kvs ''limit'' = None"
  then have p: "js_prop (VObj kvs) ''limit'' = VUndefined" by simp
  show "js_prop (snd (validate env True [] searchCustomerSchema (VObj kvs))) ''limit'' = VNum 10"
    by (subst search_lookup[where s = "Schema KNumber Optional (Default (VNum 10)) [] False
          [Integer, Min 1, Max 100] []"])
       (simp_all add: searchCustomerSchema_eq p absent_default del: js_prop.simps)
next
  fix s x
  assume h: "map_of kvs ''limit'' = Some (VStr s) \<and> number_coerce s = Some x \<and>
            (x < 1 \<or> 100 < x \<or> of_int \<lfloor>x\<rfloor> \<noteq> x)"
  then have l: "js_prop (VObj kvs) ''limit'' = VStr s" by simp
  from h have h2: "number_coerce s = Some x"
    and h3: "x < 1 \<or> 100 < x \<or> of_int \<lfloor>x\<rfloor> \<noteq> x" by blast+
  show "\<exists>errors. validateQuery env searchCustomerSchema (VObj kvs) next =
           Inl (Reply 400 (FailureBody ''Invalid query parameters'' errors))
         \<and> (\<exists>e \<in> set errors. field e = ''limit'')"
    by (rule search_child_error[where s = "Schema KNumber Optional (Default (VNum 10)) [] False
          [Integer, Min 1, Max 100] []"])
       (simp add: searchCustomerSchema_eq, unfold l, rule limit_invalid[OF h2 h3])
next
  fix s
  assume h: "map_of kvs ''limit'' = Some (VStr s) \<and> number_coerce s = None"
  then have l: "js_prop (VObj kvs) ''limit'' = VStr s" by simp
  show "\<exists>errors. validateQuery env searchCustomerSchema (VObj kvs) next =
           Inl (Reply 400 (FailureBody ''Invalid query parameters'' errors))
         \<and> (\<exists>e \<in> set errors. field e = ''limit'')"
    by (rule search_child_error[where s = "Schema KNumber Optional (Default (VNum 10)) [] False
          [Integer, Min 1, Max 100] []"])
       (simp add: searchCustomerSchema_eq, unfold l, rule limit_not_a_number, simp add: h)
next
  fix s n
  assume h: "map_of kvs ''limit'' = Some (VStr s) \<and> number_coerce s = Some (of_int n) \<and>
            1 \<le> n \<and> n \<le> 100"
  then have l: "js_prop (VObj kvs) ''limit'' = VStr s" by simp
  have v: "validate env True path
             (Schema KNumber Optional (Default (VNum 10)) [] False [Integer, Min 1, Max 100] [])
             (VStr s) = ([], VNum (of_int n))" for path
    using h by (intro limit_valid) simp_all
  show "js_prop (snd (validate env True [] searchCustomerSchema (VObj kvs))) ''limit'' =
          VNum (of_int n)"
    by (subst search_lookup[where s = "Schema KNumber Optional (Default (VNum 10)) [] False
          [Integer, Min 1, Max 100] []"])
       (simp_all add: searchCustomerSchema_eq l v del: js_prop.simps)
  show "fst (validate env True [] searchCustomerSchema (VObj kvs)) =
        fst (validate env True [] searchCustomerSchema
               (VObj (filter (\<lambda>(key, x). key \<noteq> ''limit'') kvs)))"
    by (rule search_errors_without_limit) (simp add: l v del: js_prop.simps)
qed

text \<open>The theorem at \<^verbatim>\<open>?limit=101\<close>: a 400 that names the limit, and page 1 by default.\<close>

theorem search_query_rules_witness:
  "(\<exists>errors. validateQuery sample_env searchCustomerSchema (VObj [(''limit'', VStr ''101'')])
        decodeQuery = Inl (Reply 400 (FailureBody ''Invalid query parameters'' errors))
      \<and> (\<exists>e \<in> set errors. field e = ''limit''))
   \<and> js_prop (snd (validate sample_env True [] searchCustomerSchema
         (VObj [(''limit'', VStr ''101'')]))) ''page'' = VNum 1"
proof -
  have m: "map_of [(''limit'', VStr ''101'')] ''limit'' = Some (VStr ''101'')" by simp
  have p: "map_of [(''limit'', VStr ''101'')] ''page'' = None" by simp
  have n: "number_coerce ''101'' = Some 101" by code_simp
  have b: "(101::rat) < 1 \<or> 100 < (101::rat) \<or> of_int \<lfloor>101::rat\<rfloor> \<noteq> (101::rat)" by simp
  note r = search_query_rules[of "[(''limit'', VStr ''101'')]" sample_env decodeQuery]
  show ?thesis
    using r[THEN conjunct2, THEN conjunct2, THEN conjunct2, THEN conjunct1, rule_format,
            of "''101''" 101, OF conjI[OF m conjI[OF n b]]]
      r[THEN conjunct2, THEN conjunct1, rule_format, OF p]
    by (rule conjI)
qed

text \<open>
  C7 as stated fails: \<^verbatim>\<open>?limit=101\<close> is not taken as 100. The request is answered with a
  400 and the handler does not run.
\<close>

theorem limit_above_100_is_rejected:
  "validateQuery sample_env searchCustomerSchema (VObj [(''limit'', VStr ''101'')]) decodeQuery =
     Inl (Reply 400 (FailureBody ''Invalid query parameters''
       [\<lparr>field = ''limit'', error_type = ''number.max'', custom_message = None,
         offending = VNum 101\<rparr>]))"
  by code_simp

subsection \<open>Registration\<close>


























end
